theory Spec2Isabelle
  imports Complex_Main "HOL-Library.Word"
begin

section \<open>The gimbal stabilizer (hw/gimbal/firmware/gimbal/gimbal_stabilizer.cc)\<close>

text \<open>
  The class \<open>GimbalStabilizer::Impl\<close> is embedded function by function. Conventions:
  \<^item> \<open>uint32_t\<close> ticks are \<open>32 word\<close>, so \<open>now - start_timestamp\<close> wraps as in C++;
    the phases handed to the motors are \<open>16 word\<close>.
  \<^item> A \<open>float\<close> is the real number it holds. The two elapsed-time computations
    round as binary32 does (\<open>round_f32\<close>: to nearest, ties to even) at every
    conversion of an integer to \<open>float\<close> and at the division. The phase lambda and the
    PID are idealised: \<open>sin\<close>, sums and products are exact there. No infinity or NaN
    is modelled.
  \<^item> The mutable member \<open>data_\<close> is passed in and returned (explicit state passing);
    \<open>config_\<close> is only read and is a parameter.
  \<^item> A call on a collaborator (\<open>motor_enable_.Set\<close>, \<open>motor1_.Set\<close>, \<open>motor2_.Set\<close>,
    \<open>data_updater_()\<close>) is recorded as a value of type \<open>Call\<close>; every method returns the
    list of its calls in program order.
  \<^item> \<open>assert(false)\<close>, a quotient by a zero tick rate and a float-to-integer conversion
    outside the target range are results \<open>Inl\<close> of type \<open>Abort\<close>.
\<close>

type_synonym u8 = "8 word"
type_synonym u16 = "16 word"
type_synonym u32 = "32 word"

subsection \<open>Rounding to binary32\<close>

text \<open>
  \<open>round_even\<close> is the nearest integer, the even one at a tie. \<open>ulp_exp x\<close> is the
  exponent of the spacing of the \<open>float\<close> values around \<open>x\<close>: 24 significant bits, and
  never below \<open>-149\<close>, the spacing of the subnormal values. \<open>round_f32 x\<close> is the
  \<open>float\<close> nearest to \<open>x\<close>, as IEEE 754 round-to-nearest-even gives it. The exponent
  is not bounded above: a result of \<open>2 ^ 128\<close> or more stands for the infinity that the
  code gets, and compares with every \<open>float\<close> as that infinity does.
\<close>

definition round_even :: "real \<Rightarrow> int" where
  "round_even y =
     (let f = \<lfloor>y\<rfloor>; r = y - of_int f
      in if r < 1 / 2 then f else if 1 / 2 < r then f + 1
         else if even f then f else f + 1)"

definition ulp_exp :: "real \<Rightarrow> int" where
  "ulp_exp x = max (\<lfloor>log 2 \<bar>x\<bar>\<rfloor> - 23) (- 149)"

definition round_f32 :: "real \<Rightarrow> real" where
  "round_f32 x =
     (if x = 0 then 0
      else of_int (round_even (x / 2 powi ulp_exp x)) * 2 powi ulp_exp x)"

subsection \<open>Data of the collaborators\<close>

text \<open>
  \<open>Euler\<close>, \<open>Point3D\<close> and \<open>AhrsData\<close> are declared in headers that are not part of the
  sources at hand; the records carry the members that gimbal_stabilizer.cc reads.
  The members \<open>x\<close>, \<open>y\<close>, \<open>z\<close> of \<open>Point3D\<close> are named \<open>p_x\<close>, \<open>p_y\<close>, \<open>p_z\<close>.
\<close>

record Euler =
  roll :: real
  pitch :: real
  yaw :: real

record Point3D =
  p_x :: real
  p_y :: real
  p_z :: real

record AhrsData =
  error :: bool
  euler_deg :: Euler
  body_rate_dps :: Point3D
  timestamp :: u32
  rate_hz :: real

text \<open>
  Modelled from the spec: the class \<open>Clock\<close> (clock.h is not among the sources). The spec
  says that the clock exposes a monotonic tick count and a fixed \<open>ticks_per_second\<close>
  conversion factor. The C++ type of \<open>ticks_per_second()\<close> decides what the quotient in
  \<open>DoInitializing\<close> computes, so both readings are kept: an integral rate (the quotient of
  two integers truncates before it is converted to \<open>float\<close>) and a rate of type \<open>float\<close>
  (\<open>FloatRate r\<close>, where \<open>r\<close> is the value the \<open>float\<close> holds).
  A \<open>Clock\<close> value is the clock as read during one invocation of an entry point.
\<close>

datatype tick_rate = IntegralRate nat | FloatRate real

record Clock =
  timestamp :: u32
  ticks_per_second :: tick_rate

fun zero_rate :: "tick_rate \<Rightarrow> bool" where
  "zero_rate (IntegralRate n) = (n = 0)"
| "zero_rate (FloatRate r) = (r = 0)"

fun rate_value :: "tick_rate \<Rightarrow> real" where
  "rate_value (IntegralRate n) = real n"
| "rate_value (FloatRate r) = r"

text \<open>The rate as the \<open>float\<close> operand of a division: an integral rate is converted.\<close>

fun rate_f32 :: "tick_rate \<Rightarrow> real" where
  "rate_f32 (IntegralRate n) = round_f32 (real n)"
| "rate_f32 (FloatRate r) = r"

text \<open>
  \<open>(now - data_.start_timestamp) / clock_.ticks_per_second()\<close>, assigned to a \<open>float\<close>.
  The dividend is a \<open>uint32_t\<close>. With an integral rate the division is the integer
  one, and its quotient is converted to \<open>float\<close>; with a \<open>float\<close> rate the dividend is
  converted to \<open>float\<close> and the division is the rounded \<open>float\<close> division.
\<close>

fun quotient_u32 :: "u32 \<Rightarrow> tick_rate \<Rightarrow> real" where
  "quotient_u32 ticks (IntegralRate n) = round_f32 (real (unat ticks div n))"
| "quotient_u32 ticks (FloatRate r) = round_f32 (round_f32 (real (unat ticks)) / r)"

text \<open>
  \<open>static_cast<float>(...) / clock_.ticks_per_second()\<close>: the dividend is a \<open>float\<close>, so
  the division is the rounded \<open>float\<close> division whatever the type of the rate.
\<close>

definition quotient_float :: "real \<Rightarrow> tick_rate \<Rightarrow> real" where
  "quotient_float f rate = round_f32 (f / rate_f32 rate)"

subsection \<open>Config and Data\<close>

text \<open>
  \<open>PID::Config\<close> and \<open>PID::State\<close> are declared in pid.h, which is not among the sources:
  they are the type parameters \<open>'c\<close> and \<open>'s\<close>.
\<close>

record 'c ChannelConfig =
  motor :: u8
  pid :: 'c

record 'c Config =
  initialization_period_s :: real
  watchdog_period_s :: real
  pitch :: "'c ChannelConfig"
  yaw :: "'c ChannelConfig"

datatype State = kInitializing | kOperating | kFault | kNumStates

record 's Data =
  state :: State
  pitch :: 's
  yaw :: 's
  start_timestamp :: u32
  desired_deg :: Euler
  desired_body_rate_dps :: Point3D
  last_ahrs_update :: u32
  torque_on :: bool

text \<open>
  \<open>PID::Apply(measured, desired, measured_rate, desired_rate, rate_hz)\<close> is a parameter of
  the model: it reads the PID's configuration and state and returns the command together
  with the new PID state (the object holds pointers to \<open>config_.pitch.pid\<close> and
  \<open>data_.pitch\<close>, and to the yaw pair).
\<close>

type_synonym ('c, 's) PID_Apply =
  "'c \<Rightarrow> 's \<Rightarrow> real \<Rightarrow> real \<Rightarrow> real \<Rightarrow> real \<Rightarrow> real \<Rightarrow> real \<times> 's"

subsection \<open>Calls on the collaborators\<close>

datatype Motor = Motor1 | Motor2

datatype 's Call =
    GpioSet bool
  | PwmSet Motor u16 u16 u16
  | DataUpdater "'s Data"

datatype Abort = AssertFalse | DivideByZero | CastUndefined

subsection \<open>The phase lambda of DoOperating\<close>

text \<open>
  \<open>static_cast<uint32_t>\<close> of a \<open>float\<close> truncates towards zero and is undefined when the
  truncated value is not a \<open>uint32_t\<close>. The constant \<open>mjmech::base::kPi\<close> is \<open>pi\<close>.
  The lambda's \<open>uint16_t\<close> result is stored in a \<open>float\<close> and handed to \<open>Set\<close>; a 16-bit
  value passes through \<open>float\<close> unchanged, so the calls carry the \<open>16 word\<close> itself.
\<close>

definition truncate_real :: "real \<Rightarrow> int" where
  "truncate_real x = (if 0 \<le> x then \<lfloor>x\<rfloor> else \<lceil>x\<rceil>)"

definition cast_u32 :: "real \<Rightarrow> u32 option" where
  "cast_u32 x = (if - 1 < x \<and> x < 2 ^ 32 then Some (word_of_int (truncate_real x)) else None)"

definition phase :: "real \<Rightarrow> real \<Rightarrow> u16 option" where
  "phase command ph =
     (let fresult = (sin ((command + ph) * 2 * pi) + 1) * 32767
      in case cast_u32 fresult of
           None \<Rightarrow> None
         | Some v \<Rightarrow> Some (ucast (max (0 :: u32) (min (65535 :: u32) v))))"

subsection \<open>The methods of Impl\<close>

definition pitch_motor :: "'c Config \<Rightarrow> Motor" where
  "pitch_motor cfg =
     (if motor (Config.pitch cfg) = 1 then Motor1
      else if motor (Config.pitch cfg) = 2 then Motor2
      else Motor1)"

definition yaw_motor :: "'c Config \<Rightarrow> Motor" where
  "yaw_motor cfg =
     (if motor (Config.yaw cfg) = 1 then Motor1
      else if motor (Config.yaw cfg) = 2 then Motor2
      else Motor2)"

definition DoFault :: "'s Data \<Rightarrow> 's Data \<times> 's Call list" where
  "DoFault d =
     (d\<lparr>state := kFault, torque_on := False\<rparr>,
      [GpioSet False, PwmSet Motor1 0 0 0, PwmSet Motor2 0 0 0])"

definition DoInitializing ::
  "Clock \<Rightarrow> 'c Config \<Rightarrow> 's Data \<Rightarrow> AhrsData \<Rightarrow> Abort + 's Data \<times> 's Call list" where
  "DoInitializing clock cfg d data =
     (let calls = [GpioSet False] in
      if error data then Inr (d\<lparr>start_timestamp := 0\<rparr>, calls)
      else if start_timestamp d = 0
      then Inr (d\<lparr>start_timestamp := Clock.timestamp clock\<rparr>, calls)
      else if zero_rate (ticks_per_second clock) then Inl DivideByZero
      else
        let now = Clock.timestamp clock;
            elapsed_s = quotient_u32 (now - start_timestamp d) (ticks_per_second clock)
        in if elapsed_s > initialization_period_s cfg
           then Inr (d\<lparr>desired_deg :=
                         (desired_deg d)\<lparr>Euler.pitch := 0,
                                          Euler.yaw := Euler.yaw (euler_deg data)\<rparr>,
                       last_ahrs_update := now,
                       state := kOperating\<rparr>, calls)
           else Inr (d, calls))"

definition DoOperating ::
  "('c, 's) PID_Apply \<Rightarrow> 'c Config \<Rightarrow> 's Data \<Rightarrow> AhrsData \<Rightarrow> Abort + 's Data \<times> 's Call list" where
  "DoOperating Apply cfg d data =
     (if error data then Inr (DoFault d)
      else
        let d1 = d\<lparr>last_ahrs_update := AhrsData.timestamp data\<rparr>;
            enable = GpioSet (torque_on d1);
            (pitch_command, pitch_state) =
               Apply (pid (Config.pitch cfg)) (Data.pitch d1)
                     (Euler.pitch (euler_deg data)) (Euler.pitch (desired_deg d1))
                     (p_x (body_rate_dps data)) (p_x (desired_body_rate_dps d1))
                     (rate_hz data);
            d2 = d1\<lparr>Data.pitch := pitch_state\<rparr>;
            (yaw_command, yaw_state) =
               Apply (pid (Config.yaw cfg)) (Data.yaw d2)
                     (Euler.yaw (euler_deg data)) (Euler.yaw (desired_deg d2))
                     (p_z (body_rate_dps data)) (p_z (desired_body_rate_dps d2))
                     (rate_hz data);
            d3 = d2\<lparr>Data.yaw := yaw_state\<rparr>
        in case (phase pitch_command 0, phase pitch_command (1 / 3),
                 phase pitch_command (2 / 3),
                 phase yaw_command 0, phase yaw_command (1 / 3),
                 phase yaw_command (2 / 3)) of
             (Some pitch1, Some pitch2, Some pitch3, Some yaw1, Some yaw2, Some yaw3) \<Rightarrow>
               Inr (d3, [enable,
                         PwmSet (pitch_motor cfg) pitch1 pitch2 pitch3,
                         PwmSet (yaw_motor cfg) yaw1 yaw2 yaw3])
           | _ \<Rightarrow> Inl CastUndefined)"

definition HandleAhrs ::
  "('c, 's) PID_Apply \<Rightarrow> Clock \<Rightarrow> 'c Config \<Rightarrow> 's Data \<Rightarrow> AhrsData
     \<Rightarrow> Abort + 's Data \<times> 's Call list" where
  "HandleAhrs Apply clock cfg d data =
     (case (case state d of
              kInitializing \<Rightarrow> DoInitializing clock cfg d data
            | kOperating \<Rightarrow> DoOperating Apply cfg d data
            | kFault \<Rightarrow> Inr (DoFault d)
            | kNumStates \<Rightarrow> Inl AssertFalse) of
        Inl a \<Rightarrow> Inl a
      | Inr (d', calls) \<Rightarrow> Inr (d', calls @ [DataUpdater d']))"

definition PollMillisecond ::
  "Clock \<Rightarrow> 'c Config \<Rightarrow> 's Data \<Rightarrow> Abort + 's Data \<times> 's Call list" where
  "PollMillisecond clock cfg d =
     (case state d of
        kOperating \<Rightarrow>
          if zero_rate (ticks_per_second clock) then Inl DivideByZero
          else
            let elapsed_s =
                  quotient_float
                    (round_f32 (real (unat (Clock.timestamp clock - last_ahrs_update d))))
                    (ticks_per_second clock)
            in if elapsed_s > watchdog_period_s cfg then Inr (DoFault d) else Inr (d, [])
      | kInitializing \<Rightarrow> Inr (d, [])
      | kFault \<Rightarrow> Inr (d, [])
      | kNumStates \<Rightarrow> Inl AssertFalse)"

subsection \<open>The stabilizer with its actuators and telemetry\<close>

text \<open>
  \<open>GpioPin\<close>, \<open>BldcPwm\<close> and the telemetry updater are collaborators outside the sources:
  the enable line keeps the level last set on \<open>motor_enable_\<close>, each motor channel the
  three phases last set on it, and \<open>published\<close> lists the snapshots of \<open>data_\<close> taken by
  \<open>data_updater_()\<close>, oldest first. \<open>stabilizer\<close> is the member \<open>data_\<close>.
\<close>

record 's Plant =
  stabilizer :: "'s Data"
  enable_line :: bool
  motor1_out :: "u16 \<times> u16 \<times> u16"
  motor2_out :: "u16 \<times> u16 \<times> u16"
  published :: "'s Data list"

fun perform :: "'s Call \<Rightarrow> 's Plant \<Rightarrow> 's Plant" where
  "perform (GpioSet b) s = s\<lparr>enable_line := b\<rparr>"
| "perform (PwmSet Motor1 a b c) s = s\<lparr>motor1_out := (a, b, c)\<rparr>"
| "perform (PwmSet Motor2 a b c) s = s\<lparr>motor2_out := (a, b, c)\<rparr>"
| "perform (DataUpdater d) s = s\<lparr>published := published s @ [d]\<rparr>"

text \<open>
  The two entry points: the AHRS signal calls \<open>HandleAhrs\<close> with a sample, the scheduler
  calls \<open>PollMillisecond\<close>. Each event carries the clock as read during the call.
\<close>

datatype Event = AhrsSignal Clock AhrsData | Millisecond Clock

fun entry ::
  "('c, 's) PID_Apply \<Rightarrow> 'c Config \<Rightarrow> Event \<Rightarrow> 's Data \<Rightarrow> Abort + 's Data \<times> 's Call list" where
  "entry Apply cfg (AhrsSignal clock smp) d = HandleAhrs Apply clock cfg d smp"
| "entry Apply cfg (Millisecond clock) d = PollMillisecond clock cfg d"

definition step ::
  "('c, 's) PID_Apply \<Rightarrow> 'c Config \<Rightarrow> Event \<Rightarrow> 's Plant \<Rightarrow> Abort + 's Plant" where
  "step Apply cfg ev s =
     (case entry Apply cfg ev (stabilizer s) of
        Inl a \<Rightarrow> Inl a
      | Inr (d', calls) \<Rightarrow> Inr (fold perform calls (s\<lparr>stabilizer := d'\<rparr>)))"

fun run ::
  "('c, 's) PID_Apply \<Rightarrow> 'c Config \<Rightarrow> Event list \<Rightarrow> 's Plant \<Rightarrow> Abort + 's Plant" where
  "run Apply cfg [] s = Inr s"
| "run Apply cfg (ev # evs) s =
     (case step Apply cfg ev s of
        Inl a \<Rightarrow> Inl a
      | Inr s' \<Rightarrow> run Apply cfg evs s')"

text \<open>
  The state after construction. \<open>Data\<close> initialises \<open>start_timestamp\<close> and
  \<open>last_ahrs_update\<close> to 0 and \<open>torque_on\<close> to false. \<open>state\<close> has no initialiser in the
  source; the spec names Initializing as the initial state. The constructor makes no
  call on the actuators: they are taken to be de-energised at construction.
\<close>

definition actuators_off :: "'s Plant \<Rightarrow> bool" where
  "actuators_off s =
     (enable_line s = False \<and> motor1_out s = (0, 0, 0) \<and> motor2_out s = (0, 0, 0))"

definition initial :: "'s Plant \<Rightarrow> bool" where
  "initial s =
     (state (stabilizer s) = kInitializing \<and> start_timestamp (stabilizer s) = 0 \<and>
      last_ahrs_update (stabilizer s) = 0 \<and> torque_on (stabilizer s) = False \<and>
      actuators_off s \<and> published s = [])"

text \<open>A call that neither energises a motor phase nor raises the enable line.\<close>

fun quiet :: "'s Call \<Rightarrow> bool" where
  "quiet (GpioSet b) = (b = False)"
| "quiet (PwmSet m a b c) = (a = 0 \<and> b = 0 \<and> c = 0)"
| "quiet (DataUpdater d) = True"

fun event_rate :: "Event \<Rightarrow> tick_rate" where
  "event_rate (AhrsSignal clock smp) = ticks_per_second clock"
| "event_rate (Millisecond clock) = ticks_per_second clock"

text \<open>The events that deliver a sample with the error flag set, and the watchdog polls.\<close>

fun error_signal :: "Event \<Rightarrow> bool" where
  "error_signal (AhrsSignal clock smp) = error smp"
| "error_signal (Millisecond clock) = False"

fun is_poll :: "Event \<Rightarrow> bool" where
  "is_poll (AhrsSignal clock smp) = False"
| "is_poll (Millisecond clock) = True"


text \<open>The calls that publish the data to telemetry.\<close>

fun is_update :: "'s Call \<Rightarrow> bool" where
  "is_update (GpioSet b) = False"
| "is_update (PwmSet m a b c) = False"
| "is_update (DataUpdater d) = True"

subsection \<open>A concrete stabilizer\<close>

text \<open>
  The default configuration (initialisation period \<open>1.0\<close>, watchdog period \<open>0.1\<close>, which
  as a \<open>float\<close> is \<open>13421773 / 2 ^ 27\<close>, pitch on motor 1 and yaw on motor 2),
  a clock of 10000 ticks per second, a PID without state that commands 0, and the
  stabilizer as constructed.
\<close>

definition config0 :: "unit Config" where
  "config0 =
     \<lparr>initialization_period_s = 1, watchdog_period_s = 13421773 / 134217728,
      Config.pitch = \<lparr>motor = 1, pid = ()\<rparr>, Config.yaw = \<lparr>motor = 2, pid = ()\<rparr>\<rparr>"

definition Apply0 :: "(unit, unit) PID_Apply" where
  "Apply0 c st measured desired measured_rate desired_rate hz = (0, ())"

definition clock_at :: "u32 \<Rightarrow> Clock" where
  "clock_at t = \<lparr>Clock.timestamp = t, ticks_per_second = IntegralRate 10000\<rparr>"

definition sample :: "bool \<Rightarrow> real \<Rightarrow> u32 \<Rightarrow> AhrsData" where
  "sample err heading t =
     \<lparr>error = err,
      euler_deg = \<lparr>roll = 0, Euler.pitch = 0, Euler.yaw = heading\<rparr>,
      body_rate_dps = \<lparr>p_x = 0, p_y = 0, p_z = 0\<rparr>,
      AhrsData.timestamp = t, rate_hz = 100\<rparr>"

definition data0 :: "unit Data" where
  "data0 =
     \<lparr>state = kInitializing, Data.pitch = (), Data.yaw = (), start_timestamp = 0,
      desired_deg = \<lparr>roll = 0, Euler.pitch = 0, Euler.yaw = 0\<rparr>,
      desired_body_rate_dps = \<lparr>p_x = 0, p_y = 0, p_z = 0\<rparr>,
      last_ahrs_update = 0, torque_on = False\<rparr>"

definition plant0 :: "unit Plant" where
  "plant0 =
     \<lparr>stabilizer = data0, enable_line = False, motor1_out = (0, 0, 0),
      motor2_out = (0, 0, 0), published = []\<rparr>"

text \<open>
  A run of this stabilizer: a first sample at tick 1 starts the arming timer, a sample at
  tick 20001 (two seconds later) arms it with heading 45; then one more sample is
  accepted, stamped 20100, and the watchdog polls at tick 21101, more than 0.1 s later.
  \<open>armed\<close> is the data after arming, \<open>faulted\<close> the plant after the stale poll.
\<close>

definition armed :: "unit Data" where
  "armed =
     data0\<lparr>state := kOperating, start_timestamp := 1,
           desired_deg := \<lparr>roll = 0, Euler.pitch = 0, Euler.yaw = 45\<rparr>,
           last_ahrs_update := 20001\<rparr>"

definition arming_trace :: "Event list" where
  "arming_trace =
     [AhrsSignal (clock_at 1) (sample False 45 1),
      AhrsSignal (clock_at 20001) (sample False 45 20001)]"

definition stale_trace :: "Event list" where
  "stale_trace =
     [AhrsSignal (clock_at 20101) (sample False 45 20100), Millisecond (clock_at 21101)]"

definition faulted :: "unit Plant" where
  "faulted =
     plant0\<lparr>stabilizer := armed\<lparr>last_ahrs_update := 20100, state := kFault\<rparr>,
            published := [data0\<lparr>start_timestamp := 1\<rparr>, armed,
                          armed\<lparr>last_ahrs_update := 20100\<rparr>]\<rparr>"

section \<open>Properties of the rounding\<close>

lemma round_even_half: "\<bar>of_int (round_even y) - y\<bar> \<le> 1 / 2"
proof -
  have "of_int \<lfloor>y\<rfloor> \<le> y" "y < of_int \<lfloor>y\<rfloor> + 1" by linarith+
  then show ?thesis by (auto simp: round_even_def Let_def)
qed


lemma round_even_of_int [simp]: "round_even (of_int k) = k"
  by (simp add: round_even_def)

lemma binade:
  assumes "x \<noteq> 0"
  shows "2 powi \<lfloor>log 2 \<bar>x\<bar>\<rfloor> \<le> \<bar>x\<bar>" and "\<bar>x\<bar> < 2 powi (\<lfloor>log 2 \<bar>x\<bar>\<rfloor> + 1)"
proof -
  let ?E = "\<lfloor>log 2 \<bar>x\<bar>\<rfloor>"
  from assms have pos: "0 < \<bar>x\<bar>" by simp
  have "(2::real) powr real_of_int ?E \<le> \<bar>x\<bar> \<and> \<bar>x\<bar> < 2 powr (real_of_int ?E + 1)"
    using floor_log_eq_powr_iff [OF pos, of 2 ?E] by simp
  moreover have "(2::real) powr real_of_int ?E = 2 powi ?E"
    by (rule powr_real_of_int') simp_all
  moreover have "(2::real) powr (real_of_int ?E + 1) = 2 powi (?E + 1)"
    using powr_real_of_int' [of 2 "?E + 1"] by simp
  ultimately show "2 powi ?E \<le> \<bar>x\<bar>" and "\<bar>x\<bar> < 2 powi (?E + 1)" by simp_all
qed

lemma binade_unique:
  assumes "2 powi E \<le> \<bar>x\<bar>" and "\<bar>x\<bar> < 2 powi (E + 1)"
  shows "\<lfloor>log 2 \<bar>x\<bar>\<rfloor> = E"
proof -
  have "(0::real) < 2 powi E" by simp
  with assms(1) have pos: "0 < \<bar>x\<bar>" by linarith
  have a: "(2::real) powr real_of_int E = 2 powi E"
    by (rule powr_real_of_int') simp_all
  have b: "(2::real) powr (real_of_int E + 1) = 2 powi (E + 1)"
    using powr_real_of_int' [of 2 "E + 1"] by simp
  from assms a b have "(2::real) powr real_of_int E \<le> \<bar>x\<bar> \<and> \<bar>x\<bar> < 2 powr (real_of_int E + 1)"
    by simp
  then show ?thesis using floor_log_eq_powr_iff [OF pos, of 2 E] by simp
qed

lemma pow2_less_imp: "(2::real) powi a < 2 powi b \<Longrightarrow> a < b"
proof (rule ccontr)
  assume "(2::real) powi a < 2 powi b" and "\<not> a < b"
  then have "b \<le> a" by simp
  then have "(2::real) powi b \<le> 2 powi a" by (intro power_int_increasing) simp_all
  with \<open>(2::real) powi a < 2 powi b\<close> show False by simp
qed

lemma round_f32_0 [simp]: "round_f32 0 = 0"
  by (simp add: round_f32_def)

lemma round_f32_error:
  "\<bar>round_f32 x - x\<bar> \<le> 2 powi ulp_exp x / 2"
proof (cases "x = 0")
  case True
  then show ?thesis by simp
next
  case False
  let ?u = "(2::real) powi ulp_exp x"
  let ?n = "round_even (x / ?u)"
  have u: "0 < ?u" by simp
  have "round_f32 x - x = (of_int ?n - x / ?u) * ?u"
    using False u by (simp add: round_f32_def field_simps)
  then have "\<bar>round_f32 x - x\<bar> = \<bar>of_int ?n - x / ?u\<bar> * ?u"
    using u by (simp add: abs_mult)
  also have "\<dots> \<le> 1 / 2 * ?u"
    using round_even_half [of "x / ?u"] u by (intro mult_right_mono) simp_all
  finally show ?thesis by simp
qed

lemma ulp_exp_normal:
  assumes "2 powi (- 126) \<le> \<bar>x\<bar>"
  shows "ulp_exp x = \<lfloor>log 2 \<bar>x\<bar>\<rfloor> - 23"
proof -
  have "(0::real) < 2 powi (- 126)" by simp
  with assms have nz: "x \<noteq> 0" by auto
  from binade(2) [OF nz] assms have "(2::real) powi (- 126) < 2 powi (\<lfloor>log 2 \<bar>x\<bar>\<rfloor> + 1)"
    by linarith
  then have "- 126 < \<lfloor>log 2 \<bar>x\<bar>\<rfloor> + 1"
    by (rule pow2_less_imp)
  then have "- 149 \<le> \<lfloor>log 2 \<bar>x\<bar>\<rfloor> - 23" by linarith
  then show ?thesis unfolding ulp_exp_def by (rule max_absorb1)
qed

lemma ulp_normal:
  assumes "2 powi (- 126) \<le> \<bar>x\<bar>"
  shows "2 powi ulp_exp x \<le> \<bar>x\<bar> / 2 ^ 23"
proof -
  have "(0::real) < 2 powi (- 126)" by simp
  with assms have nz: "x \<noteq> 0" by auto
  let ?E = "\<lfloor>log 2 \<bar>x\<bar>\<rfloor>"
  have "(2::real) powi (?E - 23) = 2 powi ?E / 2 ^ 23"
    by (simp add: power_int_diff)
  also have "\<dots> \<le> \<bar>x\<bar> / 2 ^ 23"
    using binade(1) [OF nz] by (simp add: divide_right_mono)
  finally show ?thesis by (simp add: ulp_exp_normal [OF assms])
qed

lemma round_f32_relative:
  assumes "2 powi (- 126) \<le> \<bar>x\<bar>"
  shows "\<bar>round_f32 x - x\<bar> \<le> \<bar>x\<bar> / 2 ^ 24"
proof -
  have "\<bar>round_f32 x - x\<bar> \<le> 2 powi ulp_exp x / 2" by (rule round_f32_error)
  also have "\<dots> \<le> (\<bar>x\<bar> / 2 ^ 23) / 2"
    using ulp_normal [OF assms] by simp
  finally show ?thesis by simp
qed

lemma round_f32_multiple:
  assumes "x / 2 powi ulp_exp x = of_int k"
  shows "round_f32 x = x"
proof (cases "x = 0")
  case True
  then show ?thesis by simp
next
  case False
  have u: "(2::real) powi ulp_exp x \<noteq> 0" by simp
  from assms have "round_even (x / 2 powi ulp_exp x) = k" by simp
  then have "round_f32 x = of_int k * 2 powi ulp_exp x"
    using False by (simp add: round_f32_def)
  also have "\<dots> = x" using assms u by (simp add: field_simps)
  finally show ?thesis .
qed

lemma round_f32_grid:
  assumes "x = of_int m * 2 powi g" and "ulp_exp x \<le> g"
  shows "round_f32 x = x"
proof -
  define e where "e = ulp_exp x"
  have u: "(2::real) powi e \<noteq> 0" by simp
  have "(2::real) powi g = 2 powi (g - e) * 2 powi e"
    using power_int_add [of "2::real" "g - e" e] by simp
  moreover have "(2::real) powi (g - e) = of_int (2 ^ nat (g - e))"
    using assms(2) by (simp add: power_int_def e_def)
  ultimately have "x = of_int (m * 2 ^ nat (g - e)) * 2 powi e"
    using assms(1) by simp
  then have "x / 2 powi e = of_int (m * 2 ^ nat (g - e))"
    using u by simp
  then show ?thesis unfolding e_def by (rule round_f32_multiple)
qed

lemma round_f32_of_nat:
  assumes "n \<le> 2 ^ 24"
  shows "round_f32 (real n) = real n"
proof (cases "n = 0")
  case True
  then show ?thesis by simp
next
  case False
  show ?thesis
  proof (cases "n = 2 ^ 24")
    case True
    have "\<lfloor>log 2 \<bar>16777216 :: real\<bar>\<rfloor> = 24"
      by (rule binade_unique) simp_all
    then have e: "ulp_exp 16777216 = 1" by (simp add: ulp_exp_def)
    have "round_f32 16777216 = 16777216"
      by (rule round_f32_grid [of _ 8388608 1]) (simp_all add: e)
    with True show ?thesis by simp
  next
    case ne: False
    with assms have lt: "n < 2 ^ 24" by simp
    have "\<bar>real n\<bar> < 2 powi 24" using lt by (simp add: of_nat_less_iff [of n "2 ^ 24", where 'a = real, simplified])
    have nz: "real n \<noteq> 0" using False by simp
    have "\<lfloor>log 2 \<bar>real n\<bar>\<rfloor> < 24"
    proof (rule ccontr)
      assume "\<not> \<lfloor>log 2 \<bar>real n\<bar>\<rfloor> < 24"
      then have "(2::real) powi 24 \<le> 2 powi \<lfloor>log 2 \<bar>real n\<bar>\<rfloor>"
        by (intro power_int_increasing) simp_all
      with binade(1) [OF nz] \<open>\<bar>real n\<bar> < 2 powi 24\<close> show False by linarith
    qed
    then have "ulp_exp (real n) \<le> 0" by (simp add: ulp_exp_def)
    then show ?thesis by (intro round_f32_grid [of _ "int n" 0]) simp_all
  qed
qed





lemma round_f32_numeral [simp]:
  "numeral w \<le> (16777216 :: nat) \<Longrightarrow> round_f32 (numeral w) = numeral w"
  using round_f32_of_nat [of "numeral w"] by simp

lemma round_f32_1 [simp]: "round_f32 1 = 1"
  using round_f32_of_nat [of 1] by simp

text \<open>
  The relative error of a rounding is at most \<open>2 ^ -24\<close> in the normal range, so a value
  that clears a bound by that margin is rounded to the same side of the bound.
\<close>

lemma round_f32_gt:
  assumes "2 powi (- 126) \<le> x" and "W < x * (1 - 1 / 2 ^ 24)"
  shows "W < round_f32 x"
proof -
  have "(0::real) < 2 powi (- 126)" by simp
  with assms(1) have x: "0 < x" by linarith
  with assms(1) have "2 powi (- 126) \<le> \<bar>x\<bar>" by simp
  from round_f32_relative [OF this] have "\<bar>round_f32 x - x\<bar> \<le> x / 2 ^ 24"
    by (simp only: abs_of_pos [OF x])
  then have "x - x / 2 ^ 24 \<le> round_f32 x" by linarith
  moreover have "x * (1 - 1 / 2 ^ 24) = x - x / 2 ^ 24" by (simp add: algebra_simps)
  ultimately show ?thesis using assms(2) by linarith
qed

lemma round_f32_le_bound:
  assumes "2 powi (- 126) \<le> x" and "x * (1 + 1 / 2 ^ 24) \<le> W"
  shows "round_f32 x \<le> W"
proof -
  have "(0::real) < 2 powi (- 126)" by simp
  with assms(1) have x: "0 < x" by linarith
  with assms(1) have "2 powi (- 126) \<le> \<bar>x\<bar>" by simp
  from round_f32_relative [OF this] have "\<bar>round_f32 x - x\<bar> \<le> x / 2 ^ 24"
    by (simp only: abs_of_pos [OF x])
  then have "round_f32 x \<le> x + x / 2 ^ 24" by linarith
  moreover have "x * (1 + 1 / 2 ^ 24) = x + x / 2 ^ 24" by (simp add: algebra_simps)
  ultimately show ?thesis using assms(2) by linarith
qed

text \<open>Rounding at a given binade, for the evaluation of concrete quotients.\<close>

lemma round_f32_at:
  assumes "2 powi E \<le> \<bar>x\<bar>" and "\<bar>x\<bar> < 2 powi (E + 1)" and "- 126 \<le> E"
  shows "round_f32 x = of_int (round_even (x / 2 powi (E - 23))) * 2 powi (E - 23)"
proof -
  have "(0::real) < 2 powi E" by simp
  with assms(1) have "0 < \<bar>x\<bar>" by linarith
  then have nz: "x \<noteq> 0" by simp
  have "\<lfloor>log 2 \<bar>x\<bar>\<rfloor> = E" using assms(1,2) by (rule binade_unique)
  with assms(3) have "ulp_exp x = E - 23" by (simp add: ulp_exp_def)
  with nz show ?thesis by (simp add: round_f32_def)
qed

section \<open>The phase mapping\<close>

lemma fresult_bounds:
  fixes x :: real
  shows "0 \<le> (sin x + 1) * 32767" and "(sin x + 1) * 32767 \<le> 65534"
proof -
  have a: "0 \<le> sin x + 1" using sin_ge_minus_one [of x] by linarith
  have b: "sin x + 1 \<le> 2" using sin_le_one [of x] by linarith
  from a show "0 \<le> (sin x + 1) * 32767" by (rule mult_nonneg_nonneg) simp
  from b have "(sin x + 1) * 32767 \<le> 2 * 32767" by (rule mult_right_mono) simp
  then show "(sin x + 1) * 32767 \<le> 65534" by simp
qed

lemma cast_u32_small:
  assumes "0 \<le> x" "x \<le> 65534"
  shows "\<exists>v. cast_u32 x = Some v \<and> uint v = \<lfloor>x\<rfloor> \<and> v \<le> 65534"
proof -
  have fl: "0 \<le> \<lfloor>x\<rfloor>" "\<lfloor>x\<rfloor> \<le> 65534"
    using assms by (simp_all add: floor_le_iff le_floor_iff)
  have c: "cast_u32 x = Some (word_of_int \<lfloor>x\<rfloor>)"
    using assms by (simp add: cast_u32_def truncate_real_def)
  have u: "uint (word_of_int \<lfloor>x\<rfloor> :: u32) = \<lfloor>x\<rfloor>"
    using fl by (simp add: uint_word_of_int)
  have "(word_of_int \<lfloor>x\<rfloor> :: u32) \<le> 65534"
    using u fl by (simp add: word_le_def)
  with c u show ?thesis by simp
qed

lemma clamp_cast:
  assumes "v \<le> (65534 :: u32)"
  shows "uint (ucast (max (0 :: u32) (min (65535 :: u32) v)) :: u16) = uint v"
proof -
  have le: "uint v \<le> 65534" using assms by (simp add: word_le_def)
  have "uint (65535 :: u32) = 65535" by simp
  then have "v \<le> 65535" using le by (simp add: word_le_def)
  then have m: "max (0 :: u32) (min (65535 :: u32) v) = v"
    by (simp add: max_def min_def)
  from le have "uint v < 2 ^ 16" by simp
  moreover have "0 \<le> uint v" by simp
  ultimately have "uint (ucast v :: u16) = uint v"
    by (simp add: unsigned_ucast_eq take_bit_int_eq_self)
  with m show ?thesis by simp
qed

text \<open>
  The conversion to \<open>uint32_t\<close> is always defined, the clamp never cuts, and the
  narrowing to \<open>uint16_t\<close> loses nothing: the phase is the integer part of
  \<open>(sin(...) + 1) * 32767\<close>.
\<close>

lemma phase_value:
  "\<exists>r. phase command ph = Some r \<and>
       uint r = \<lfloor>(sin ((command + ph) * 2 * pi) + 1) * 32767\<rfloor> \<and> uint r \<le> 65534"
proof -
  let ?f = "(sin ((command + ph) * 2 * pi) + 1) * 32767"
  have "0 \<le> ?f" "?f \<le> 65534" by (rule fresult_bounds)+
  then obtain v where v: "cast_u32 ?f = Some v" "uint v = \<lfloor>?f\<rfloor>" "v \<le> 65534"
    using cast_u32_small by blast
  have "uint v \<le> 65534" using v(3) by (simp add: word_le_def)
  with v clamp_cast [OF v(3)] show ?thesis
    by (simp add: phase_def Let_def)
qed

lemma phase_Some: "\<exists>r. phase command ph = Some r"
  using phase_value by blast

text \<open>
  C7. The phase lambda is a function of its two arguments alone, and for every real
  command it yields a value for each of the three offsets 0, 1/3 and 2/3 (the conversion
  is never undefined); each of the three phases lies in the inclusive range 0 to 65535.
\<close>

theorem phase_in_range:
  "\<exists>p1 p2 p3.
     phase command 0 = Some p1 \<and> phase command (1 / 3) = Some p2 \<and>
     phase command (2 / 3) = Some p3 \<and>
     0 \<le> unat p1 \<and> unat p1 \<le> 65535 \<and> 0 \<le> unat p2 \<and> unat p2 \<le> 65535 \<and>
     0 \<le> unat p3 \<and> unat p3 \<le> 65535"
proof -
  have one: "\<exists>r. phase command ph = Some r \<and> 0 \<le> unat r \<and> unat r \<le> 65535" for ph
  proof -
    obtain r where r: "phase command ph = Some r" "uint r \<le> 65534"
      using phase_value by blast
    have "int (unat r) = uint r" by simp
    with r(2) have "unat r \<le> 65535" by linarith
    with r(1) show ?thesis by simp
  qed
  from one [of 0] one [of "1 / 3"] one [of "2 / 3"] show ?thesis by blast
qed

section \<open>The methods, branch by branch\<close>

lemma DoOperating_error:
  "error smp \<Longrightarrow> DoOperating Apply cfg d smp = Inr (DoFault d)"
  by (simp add: DoOperating_def)

lemma DoOperating_accept:
  assumes "\<not> error smp"
  shows "\<exists>ps ys a b c e f g.
           DoOperating Apply cfg d smp =
             Inr (d\<lparr>last_ahrs_update := AhrsData.timestamp smp,
                     Data.pitch := ps, Data.yaw := ys\<rparr>,
                  [GpioSet (torque_on d),
                   PwmSet (pitch_motor cfg) a b c, PwmSet (yaw_motor cfg) e f g])"
proof -
  let ?d1 = "d\<lparr>last_ahrs_update := AhrsData.timestamp smp\<rparr>"
  obtain pc ps where p:
    "Apply (pid (Config.pitch cfg)) (Data.pitch ?d1)
           (Euler.pitch (euler_deg smp)) (Euler.pitch (desired_deg ?d1))
           (p_x (body_rate_dps smp)) (p_x (desired_body_rate_dps ?d1))
           (rate_hz smp) = (pc, ps)"
    by (cases "Apply (pid (Config.pitch cfg)) (Data.pitch ?d1)
           (Euler.pitch (euler_deg smp)) (Euler.pitch (desired_deg ?d1))
           (p_x (body_rate_dps smp)) (p_x (desired_body_rate_dps ?d1))
           (rate_hz smp)") blast
  let ?d2 = "?d1\<lparr>Data.pitch := ps\<rparr>"
  obtain yc ys where y:
    "Apply (pid (Config.yaw cfg)) (Data.yaw ?d2)
           (Euler.yaw (euler_deg smp)) (Euler.yaw (desired_deg ?d2))
           (p_z (body_rate_dps smp)) (p_z (desired_body_rate_dps ?d2))
           (rate_hz smp) = (yc, ys)"
    by (cases "Apply (pid (Config.yaw cfg)) (Data.yaw ?d2)
           (Euler.yaw (euler_deg smp)) (Euler.yaw (desired_deg ?d2))
           (p_z (body_rate_dps smp)) (p_z (desired_body_rate_dps ?d2))
           (rate_hz smp)") blast
  obtain a where a: "phase pc 0 = Some a" using phase_Some by blast
  obtain b where b: "phase pc (1 / 3) = Some b" using phase_Some by blast
  obtain c where c: "phase pc (2 / 3) = Some c" using phase_Some by blast
  obtain e where e: "phase yc 0 = Some e" using phase_Some by blast
  obtain f where f: "phase yc (1 / 3) = Some f" using phase_Some by blast
  obtain g where g: "phase yc (2 / 3) = Some g" using phase_Some by blast
  have "DoOperating Apply cfg d smp =
             Inr (d\<lparr>last_ahrs_update := AhrsData.timestamp smp,
                     Data.pitch := ps, Data.yaw := ys\<rparr>,
                  [GpioSet (torque_on d),
                   PwmSet (pitch_motor cfg) a b c, PwmSet (yaw_motor cfg) e f g])"
    using assms p y a b c e f g by (simp add: DoOperating_def Let_def)
  then show ?thesis by blast
qed

lemma HandleAhrs_Fault:
  assumes "state d = kFault"
  shows "HandleAhrs Apply clock cfg d smp =
           Inr (d\<lparr>state := kFault, torque_on := False\<rparr>,
                [GpioSet False, PwmSet Motor1 0 0 0, PwmSet Motor2 0 0 0,
                 DataUpdater (d\<lparr>state := kFault, torque_on := False\<rparr>)])"
  using assms by (simp add: HandleAhrs_def DoFault_def)

lemma HandleAhrs_Operating_error:
  assumes "state d = kOperating" "error smp"
  shows "HandleAhrs Apply clock cfg d smp =
           Inr (d\<lparr>state := kFault, torque_on := False\<rparr>,
                [GpioSet False, PwmSet Motor1 0 0 0, PwmSet Motor2 0 0 0,
                 DataUpdater (d\<lparr>state := kFault, torque_on := False\<rparr>)])"
  using assms by (simp add: HandleAhrs_def DoOperating_error DoFault_def)

lemma HandleAhrs_Operating_accept:
  assumes "state d = kOperating" "\<not> error smp"
  shows "\<exists>ps ys a b c e f g.
           HandleAhrs Apply clock cfg d smp =
             Inr (d\<lparr>last_ahrs_update := AhrsData.timestamp smp,
                     Data.pitch := ps, Data.yaw := ys\<rparr>,
                  [GpioSet (torque_on d),
                   PwmSet (pitch_motor cfg) a b c, PwmSet (yaw_motor cfg) e f g,
                   DataUpdater (d\<lparr>last_ahrs_update := AhrsData.timestamp smp,
                                    Data.pitch := ps, Data.yaw := ys\<rparr>)])"
proof -
  obtain ps ys a b c e f g where
    "DoOperating Apply cfg d smp =
       Inr (d\<lparr>last_ahrs_update := AhrsData.timestamp smp,
               Data.pitch := ps, Data.yaw := ys\<rparr>,
            [GpioSet (torque_on d),
             PwmSet (pitch_motor cfg) a b c, PwmSet (yaw_motor cfg) e f g])"
    using DoOperating_accept [where Apply = Apply and cfg = cfg and d = d, OF assms(2)]
    by blast
  with assms(1) have
    "HandleAhrs Apply clock cfg d smp =
       Inr (d\<lparr>last_ahrs_update := AhrsData.timestamp smp,
               Data.pitch := ps, Data.yaw := ys\<rparr>,
            [GpioSet (torque_on d),
             PwmSet (pitch_motor cfg) a b c, PwmSet (yaw_motor cfg) e f g,
             DataUpdater (d\<lparr>last_ahrs_update := AhrsData.timestamp smp,
                              Data.pitch := ps, Data.yaw := ys\<rparr>)])"
    by (simp add: HandleAhrs_def)
  then show ?thesis by blast
qed

lemma HandleAhrs_Initializing_error:
  assumes "state d = kInitializing" "error smp"
  shows "HandleAhrs Apply clock cfg d smp =
           Inr (d\<lparr>start_timestamp := 0\<rparr>,
                [GpioSet False, DataUpdater (d\<lparr>start_timestamp := 0\<rparr>)])"
  using assms by (simp add: HandleAhrs_def DoInitializing_def)

lemma HandleAhrs_Initializing_start:
  assumes "state d = kInitializing" "\<not> error smp" "start_timestamp d = 0"
  shows "HandleAhrs Apply clock cfg d smp =
           Inr (d\<lparr>start_timestamp := Clock.timestamp clock\<rparr>,
                [GpioSet False,
                 DataUpdater (d\<lparr>start_timestamp := Clock.timestamp clock\<rparr>)])"
  using assms by (simp add: HandleAhrs_def DoInitializing_def)

lemma HandleAhrs_Initializing_arm:
  assumes "state d = kInitializing" "\<not> error smp" "start_timestamp d \<noteq> 0"
    and "\<not> zero_rate (ticks_per_second clock)"
    and "quotient_u32 (Clock.timestamp clock - start_timestamp d) (ticks_per_second clock)
           > initialization_period_s cfg"
  shows "HandleAhrs Apply clock cfg d smp =
           Inr (d\<lparr>desired_deg :=
                     (desired_deg d)\<lparr>Euler.pitch := 0,
                                      Euler.yaw := Euler.yaw (euler_deg smp)\<rparr>,
                   last_ahrs_update := Clock.timestamp clock,
                   state := kOperating\<rparr>,
                [GpioSet False,
                 DataUpdater
                   (d\<lparr>desired_deg :=
                        (desired_deg d)\<lparr>Euler.pitch := 0,
                                         Euler.yaw := Euler.yaw (euler_deg smp)\<rparr>,
                      last_ahrs_update := Clock.timestamp clock,
                      state := kOperating\<rparr>)])"
  using assms by (simp add: HandleAhrs_def DoInitializing_def Let_def)

lemma HandleAhrs_Initializing_wait:
  assumes "state d = kInitializing" "\<not> error smp" "start_timestamp d \<noteq> 0"
    and "\<not> zero_rate (ticks_per_second clock)"
    and "\<not> quotient_u32 (Clock.timestamp clock - start_timestamp d) (ticks_per_second clock)
           > initialization_period_s cfg"
  shows "HandleAhrs Apply clock cfg d smp = Inr (d, [GpioSet False, DataUpdater d])"
  using assms by (simp add: HandleAhrs_def DoInitializing_def Let_def)

lemma HandleAhrs_Initializing_zero_rate:
  assumes "state d = kInitializing" "\<not> error smp" "start_timestamp d \<noteq> 0"
    and "zero_rate (ticks_per_second clock)"
  shows "HandleAhrs Apply clock cfg d smp = Inl DivideByZero"
  using assms by (simp add: HandleAhrs_def DoInitializing_def Let_def)

lemma HandleAhrs_NumStates:
  "state d = kNumStates \<Longrightarrow> HandleAhrs Apply clock cfg d smp = Inl AssertFalse"
  by (simp add: HandleAhrs_def)

lemma PollMillisecond_idle:
  assumes "state d = kInitializing \<or> state d = kFault"
  shows "PollMillisecond clock cfg d = Inr (d, [])"
  using assms by (auto simp: PollMillisecond_def)

lemma PollMillisecond_Operating:
  assumes "state d = kOperating" "\<not> zero_rate (ticks_per_second clock)"
  shows "PollMillisecond clock cfg d =
           (if round_f32 (round_f32 (real (unat (Clock.timestamp clock - last_ahrs_update d)))
                           / rate_f32 (ticks_per_second clock)) > watchdog_period_s cfg
            then Inr (d\<lparr>state := kFault, torque_on := False\<rparr>,
                      [GpioSet False, PwmSet Motor1 0 0 0, PwmSet Motor2 0 0 0])
            else Inr (d, []))"
  using assms by (simp add: PollMillisecond_def quotient_float_def DoFault_def Let_def)

text \<open>Every completed invocation took one of the branches above.\<close>

lemma PollMillisecond_cases:
  assumes "PollMillisecond clock cfg d = Inr (d', calls)"
  shows "(state d \<noteq> kNumStates \<and> d' = d \<and> calls = []) \<or>
         (state d = kOperating \<and> d' = d\<lparr>state := kFault, torque_on := False\<rparr> \<and>
          calls = [GpioSet False, PwmSet Motor1 0 0 0, PwmSet Motor2 0 0 0])"
proof (cases "state d")
  case kInitializing
  with assms show ?thesis by (simp add: PollMillisecond_idle)
next
  case kOperating
  show ?thesis
  proof (cases "zero_rate (ticks_per_second clock)")
    case True
    with kOperating assms show ?thesis by (simp add: PollMillisecond_def)
  next
    case False
    with kOperating assms show ?thesis
      by (auto simp: PollMillisecond_Operating split: if_splits)
  qed
next
  case kFault
  with assms show ?thesis by (simp add: PollMillisecond_idle)
next
  case kNumStates
  with assms show ?thesis by (simp add: PollMillisecond_def)
qed

lemma HandleAhrs_cases:
  assumes "HandleAhrs Apply clock cfg d smp = Inr (d', calls)"
  shows "((state d = kOperating \<and> error smp \<or> state d = kFault) \<and>
          d' = d\<lparr>state := kFault, torque_on := False\<rparr> \<and>
          calls = [GpioSet False, PwmSet Motor1 0 0 0, PwmSet Motor2 0 0 0, DataUpdater d']) \<or>
         (state d = kOperating \<and> \<not> error smp \<and>
          (\<exists>ps ys a b c e f g.
             d' = d\<lparr>last_ahrs_update := AhrsData.timestamp smp,
                     Data.pitch := ps, Data.yaw := ys\<rparr> \<and>
             calls = [GpioSet (torque_on d), PwmSet (pitch_motor cfg) a b c,
                      PwmSet (yaw_motor cfg) e f g, DataUpdater d'])) \<or>
         (state d = kInitializing \<and> calls = [GpioSet False, DataUpdater d'] \<and>
          (error smp \<and> d' = d\<lparr>start_timestamp := 0\<rparr> \<or>
           \<not> error smp \<and> start_timestamp d = 0 \<and>
             d' = d\<lparr>start_timestamp := Clock.timestamp clock\<rparr> \<or>
           \<not> error smp \<and> start_timestamp d \<noteq> 0 \<and> d' = d \<or>
           \<not> error smp \<and> start_timestamp d \<noteq> 0 \<and>
             d' = d\<lparr>desired_deg :=
                       (desired_deg d)\<lparr>Euler.pitch := 0,
                                        Euler.yaw := Euler.yaw (euler_deg smp)\<rparr>,
                     last_ahrs_update := Clock.timestamp clock,
                     state := kOperating\<rparr>))"
proof (cases "state d")
  case kInitializing
  show ?thesis
  proof (cases "error smp")
    case True
    with kInitializing assms show ?thesis
      by (auto simp: HandleAhrs_Initializing_error)
  next
    case noerr: False
    show ?thesis
    proof (cases "start_timestamp d = 0")
      case True
      with kInitializing noerr assms show ?thesis
        by (auto simp: HandleAhrs_Initializing_start)
    next
      case started: False
      show ?thesis
      proof (cases "zero_rate (ticks_per_second clock)")
        case True
        with kInitializing noerr started assms show ?thesis
          by (auto simp: HandleAhrs_Initializing_zero_rate)
      next
        case rate: False
        show ?thesis
        proof (cases "quotient_u32 (Clock.timestamp clock - start_timestamp d)
                        (ticks_per_second clock) > initialization_period_s cfg")
          case True
          from HandleAhrs_Initializing_arm [OF kInitializing noerr started rate True]
          show ?thesis using assms kInitializing noerr started by auto
        next
          case False
          from HandleAhrs_Initializing_wait [OF kInitializing noerr started rate False]
          show ?thesis using assms kInitializing noerr started by auto
        qed
      qed
    qed
  qed
next
  case kOperating
  show ?thesis
  proof (cases "error smp")
    case True
    with kOperating assms show ?thesis
      by (auto simp: HandleAhrs_Operating_error)
  next
    case False
    from HandleAhrs_Operating_accept [OF kOperating False, of Apply clock cfg]
    show ?thesis using assms kOperating False by auto
  qed
next
  case kFault
  with assms show ?thesis by (auto simp: HandleAhrs_Fault)
next
  case kNumStates
  with assms show ?thesis by (auto simp: HandleAhrs_NumStates)
qed

text \<open>The handler completes in each of the three states when the tick rate is not zero.\<close>

lemma HandleAhrs_total:
  assumes "state d = kInitializing \<or> state d = kOperating \<or> state d = kFault"
    and "\<not> zero_rate (ticks_per_second clock)"
  shows "\<exists>d' calls. HandleAhrs Apply clock cfg d smp = Inr (d', calls)"
proof -
  consider (init) "state d = kInitializing" | (oper) "state d = kOperating"
    | (fault) "state d = kFault"
    using assms(1) by blast
  then show ?thesis
  proof cases
    case init
    show ?thesis
    proof (cases "error smp")
      case True
      with init show ?thesis by (simp add: HandleAhrs_Initializing_error)
    next
      case noerr: False
      show ?thesis
      proof (cases "start_timestamp d = 0")
        case True
        with init noerr show ?thesis by (simp add: HandleAhrs_Initializing_start)
      next
        case started: False
        show ?thesis
        proof (cases "quotient_u32 (Clock.timestamp clock - start_timestamp d)
                        (ticks_per_second clock) > initialization_period_s cfg")
          case True
          from HandleAhrs_Initializing_arm [OF init noerr started assms(2) True]
          show ?thesis by simp
        next
          case False
          from HandleAhrs_Initializing_wait [OF init noerr started assms(2) False]
          show ?thesis by simp
        qed
      qed
    qed
  next
    case oper
    show ?thesis
    proof (cases "error smp")
      case True
      with oper show ?thesis by (simp add: HandleAhrs_Operating_error)
    next
      case False
      from HandleAhrs_Operating_accept [OF oper False, where Apply = Apply and clock = clock and cfg = cfg]
      show ?thesis by blast
    qed
  next
    case fault
    then show ?thesis by (simp add: HandleAhrs_Fault)
  qed
qed

section \<open>The actuators and the telemetry under the calls\<close>

lemma perform_PwmSet [simp]:
  "stabilizer (perform (PwmSet m a b c) s) = stabilizer s"
  "enable_line (perform (PwmSet m a b c) s) = enable_line s"
  "published (perform (PwmSet m a b c) s) = published s"
  "motor1_out (perform (PwmSet m a b c) s) = (if m = Motor1 then (a, b, c) else motor1_out s)"
  "motor2_out (perform (PwmSet m a b c) s) = (if m = Motor2 then (a, b, c) else motor2_out s)"
  by (cases m; simp)+

lemma stabilizer_perform [simp]: "stabilizer (perform c s) = stabilizer s"
  by (cases c) simp_all

lemma stabilizer_fold_perform [simp]: "stabilizer (fold perform calls s) = stabilizer s"
  by (induction calls arbitrary: s) simp_all

lemma quiet_perform:
  assumes "quiet c" "actuators_off s"
  shows "actuators_off (perform c s)"
  using assms by (cases c) (auto simp: actuators_off_def)

lemma quiet_fold_perform:
  assumes "list_all quiet calls" "actuators_off s"
  shows "actuators_off (fold perform calls s)"
  using assms by (induction calls arbitrary: s) (simp_all add: quiet_perform)

lemma step_AhrsSignal:
  assumes "HandleAhrs Apply clock cfg (stabilizer s) smp = Inr (d', calls)"
  shows "step Apply cfg (AhrsSignal clock smp) s = Inr (fold perform calls (s\<lparr>stabilizer := d'\<rparr>))"
  using assms by (simp add: step_def)

lemma step_Millisecond_idle:
  assumes "state (stabilizer s) = kInitializing \<or> state (stabilizer s) = kFault"
  shows "step Apply cfg (Millisecond clock) s = Inr s"
  using assms by (simp add: step_def PollMillisecond_idle)

lemma step_stabilizer:
  assumes "step Apply cfg ev s = Inr s'"
  shows "\<exists>calls. entry Apply cfg ev (stabilizer s) = Inr (stabilizer s', calls) \<and>
           s' = fold perform calls (s\<lparr>stabilizer := stabilizer s'\<rparr>)"
  using assms by (auto simp: step_def split: sum.splits)

lemma actuators_off_stabilizer_update [simp]:
  "actuators_off (s\<lparr>stabilizer := d\<rparr>) = actuators_off s"
  by (simp add: actuators_off_def)

lemma published_fold_perform:
  "list_all (\<lambda>c. \<not> is_update c) calls \<Longrightarrow> published (fold perform calls s) = published s"
proof (induction calls arbitrary: s)
  case Nil
  show ?case by simp
next
  case (Cons c calls)
  from Cons.prems have "published (perform c s) = published s" by (cases c) simp_all
  with Cons show ?case by simp
qed

section \<open>The concrete run, evaluated\<close>

lemma phase_eval:
  assumes "\<lfloor>(sin ((command + ph) * 2 * pi) + 1) * 32767\<rfloor> = n"
  shows "phase command ph = Some (word_of_int n)"
proof -
  obtain r where r: "phase command ph = Some r"
    "uint r = \<lfloor>(sin ((command + ph) * 2 * pi) + 1) * 32767\<rfloor>"
    using phase_value by blast
  from r(2) assms have "word_of_int n = (word_of_int (uint r) :: u16)" by simp
  then have "word_of_int n = r" by simp
  with r(1) show ?thesis by simp
qed

lemma sqrt3_bounds: "56754 < 32767 * sqrt 3" "32767 * sqrt 3 < 56756"
proof -
  have "sqrt ((56754 / 32767 :: real)\<^sup>2) < sqrt 3"
    by (simp only: real_sqrt_less_iff) (simp add: power2_eq_square)
  then have "56754 / 32767 < sqrt 3" by simp
  then show "56754 < 32767 * sqrt 3" by (simp add: field_simps)
  have "sqrt 3 < sqrt ((56756 / 32767 :: real)\<^sup>2)"
    by (simp only: real_sqrt_less_iff) (simp add: power2_eq_square)
  then have "sqrt 3 < 56756 / 32767" by simp
  then show "32767 * sqrt 3 < 56756" by (simp add: field_simps)
qed

lemma sin_third: "sin ((0 + 1 / 3) * 2 * pi) = sqrt 3 / 2"
proof -
  have "sin (pi - pi / 3) = sin (pi / 3)" by (rule sin_pi_minus)
  moreover have "pi - pi / 3 = (0 + 1 / 3) * 2 * pi" by simp
  ultimately show ?thesis by (simp only: sin_60)
qed

lemma sin_two_thirds: "sin ((0 + 2 / 3) * 2 * pi) = - (sqrt 3 / 2)"
proof -
  have "sin (pi / 3 + pi) = - sin (pi / 3)" by (rule sin_periodic_pi)
  moreover have "pi / 3 + pi = (0 + 2 / 3) * 2 * pi" by simp
  ultimately show ?thesis by (simp only: sin_60)
qed

lemma phase_rest_0: "phase 0 0 = Some 32767"
proof -
  have "\<lfloor>(sin ((0 + 0) * 2 * pi) + 1) * 32767\<rfloor> = (32767 :: int)" by simp
  from phase_eval [OF this] show ?thesis by simp
qed

lemma phase_rest_1: "phase 0 (1 / 3) = Some 61144"
proof -
  have "\<lfloor>(sqrt 3 / 2 + 1) * 32767\<rfloor> = (61144 :: int)"
  proof (rule floor_unique)
    show "of_int 61144 \<le> (sqrt 3 / 2 + 1) * 32767" using sqrt3_bounds by simp
    show "(sqrt 3 / 2 + 1) * 32767 < of_int 61144 + 1" using sqrt3_bounds by simp
  qed
  then have "\<lfloor>(sin ((0 + 1 / 3) * 2 * pi) + 1) * 32767\<rfloor> = (61144 :: int)"
    by (simp only: sin_third)
  from phase_eval [OF this] show ?thesis by simp
qed

lemma phase_rest_2: "phase 0 (2 / 3) = Some 4389"
proof -
  have "\<lfloor>(- (sqrt 3 / 2) + 1) * 32767\<rfloor> = (4389 :: int)"
  proof (rule floor_unique)
    show "of_int 4389 \<le> (- (sqrt 3 / 2) + 1) * 32767" using sqrt3_bounds by simp
    show "(- (sqrt 3 / 2) + 1) * 32767 < of_int 4389 + 1" using sqrt3_bounds by simp
  qed
  then have "\<lfloor>(sin ((0 + 2 / 3) * 2 * pi) + 1) * 32767\<rfloor> = (4389 :: int)"
    by (simp only: sin_two_thirds)
  from phase_eval [OF this] show ?thesis by simp
qed

lemma run_append:
  "run Apply cfg (evs @ evs') s =
     (case run Apply cfg evs s of Inl a \<Rightarrow> Inl a | Inr s' \<Rightarrow> run Apply cfg evs' s')"
  by (induction evs arbitrary: s) (simp_all split: sum.splits)

lemma run_arming_trace:
  "run Apply0 config0 arming_trace plant0 =
     Inr (plant0\<lparr>stabilizer := armed,
                published := [data0\<lparr>start_timestamp := 1\<rparr>, armed]\<rparr>)"
  by (simp add: arming_trace_def armed_def step_def HandleAhrs_def DoInitializing_def
        plant0_def data0_def sample_def clock_at_def config0_def Let_def)

lemma HandleAhrs_armed:
  "HandleAhrs Apply0 (clock_at 20101) config0 armed (sample False 45 20100) =
     Inr (armed\<lparr>last_ahrs_update := 20100\<rparr>,
          [GpioSet False, PwmSet Motor1 32767 61144 4389, PwmSet Motor2 32767 61144 4389,
           DataUpdater (armed\<lparr>last_ahrs_update := 20100\<rparr>)])"
  by (simp add: HandleAhrs_def DoOperating_def Apply0_def phase_rest_0 phase_rest_1
        phase_rest_2 pitch_motor_def yaw_motor_def armed_def data0_def sample_def
        config0_def Let_def)

lemma run_stale_trace:
  "run Apply0 config0 stale_trace
     (plant0\<lparr>stabilizer := armed, published := [data0\<lparr>start_timestamp := 1\<rparr>, armed]\<rparr>) =
     Inr (plant0\<lparr>stabilizer := armed\<lparr>last_ahrs_update := 20100, state := kFault\<rparr>,
                published := [data0\<lparr>start_timestamp := 1\<rparr>, armed,
                              armed\<lparr>last_ahrs_update := 20100\<rparr>]\<rparr>)"
proof -
  have a: "step Apply0 config0 (AhrsSignal (clock_at 20101) (sample False 45 20100))
             (plant0\<lparr>stabilizer := armed,
                      published := [data0\<lparr>start_timestamp := 1\<rparr>, armed]\<rparr>) =
           Inr (plant0\<lparr>stabilizer := armed\<lparr>last_ahrs_update := 20100\<rparr>,
                      motor1_out := (32767, 61144, 4389), motor2_out := (32767, 61144, 4389),
                      published := [data0\<lparr>start_timestamp := 1\<rparr>, armed,
                                    armed\<lparr>last_ahrs_update := 20100\<rparr>]\<rparr>)"
    by (simp add: step_def HandleAhrs_armed) (simp add: plant0_def)
  have b: "step Apply0 config0 (Millisecond (clock_at 21101))
             (plant0\<lparr>stabilizer := armed\<lparr>last_ahrs_update := 20100\<rparr>,
                      motor1_out := (32767, 61144, 4389), motor2_out := (32767, 61144, 4389),
                      published := [data0\<lparr>start_timestamp := 1\<rparr>, armed,
                                    armed\<lparr>last_ahrs_update := 20100\<rparr>]\<rparr>) =
           Inr (plant0\<lparr>stabilizer := armed\<lparr>last_ahrs_update := 20100, state := kFault\<rparr>,
                      published := [data0\<lparr>start_timestamp := 1\<rparr>, armed,
                                    armed\<lparr>last_ahrs_update := 20100\<rparr>]\<rparr>)"
  proof -
    have "(13421773 / 134217728 :: real) < round_f32 (1001 / 10000)"
      by (rule round_f32_gt) simp_all
    then show ?thesis
      by (simp add: step_def PollMillisecond_def DoFault_def quotient_float_def Let_def
            armed_def data0_def plant0_def clock_at_def config0_def)
  qed
  from a b show ?thesis by (simp add: stale_trace_def)
qed

lemma run_to_faulted: "run Apply0 config0 (arming_trace @ stale_trace) plant0 = Inr faulted"
  by (simp add: run_append run_arming_trace run_stale_trace faulted_def)

section \<open>Sensor error while Operating\<close>

text \<open>
  C2. A sample with the error flag set, handled while the state is Operating, moves the
  state to Fault and clears \<open>torque_on\<close>; the handler sets the enable line false and
  calls \<open>Set(0, 0, 0)\<close> on motor 1 and on motor 2 (then publishes the data), so that
  afterwards the enable line is low and both channels are at zero.
\<close>

theorem operating_error_faults:
  assumes "state (stabilizer s) = kOperating" and "error smp"
  shows "HandleAhrs Apply clock cfg (stabilizer s) smp =
           Inr ((stabilizer s)\<lparr>state := kFault, torque_on := False\<rparr>,
                [GpioSet False, PwmSet Motor1 0 0 0, PwmSet Motor2 0 0 0,
                 DataUpdater ((stabilizer s)\<lparr>state := kFault, torque_on := False\<rparr>)]) \<and>
         step Apply cfg (AhrsSignal clock smp) s =
           Inr (s\<lparr>stabilizer := (stabilizer s)\<lparr>state := kFault, torque_on := False\<rparr>,
                  enable_line := False, motor1_out := (0, 0, 0), motor2_out := (0, 0, 0),
                  published :=
                    published s @ [(stabilizer s)\<lparr>state := kFault, torque_on := False\<rparr>]\<rparr>)"
proof -
  have h: "HandleAhrs Apply clock cfg (stabilizer s) smp =
           Inr ((stabilizer s)\<lparr>state := kFault, torque_on := False\<rparr>,
                [GpioSet False, PwmSet Motor1 0 0 0, PwmSet Motor2 0 0 0,
                 DataUpdater ((stabilizer s)\<lparr>state := kFault, torque_on := False\<rparr>)])"
    using assms by (rule HandleAhrs_Operating_error)
  from step_AhrsSignal [OF h] h show ?thesis by simp
qed

theorem operating_error_faults_witness:
  "state (stabilizer (plant0\<lparr>stabilizer := data0\<lparr>state := kOperating, torque_on := True\<rparr>,
                              enable_line := True, motor1_out := (7, 8, 9)\<rparr>)) = kOperating \<and>
   error (sample True 0 5) \<and>
   step Apply0 config0 (AhrsSignal (clock_at 6) (sample True 0 5))
        (plant0\<lparr>stabilizer := data0\<lparr>state := kOperating, torque_on := True\<rparr>,
                 enable_line := True, motor1_out := (7, 8, 9)\<rparr>) =
     Inr (plant0\<lparr>stabilizer := data0\<lparr>state := kFault\<rparr>,
                  published := [data0\<lparr>state := kFault\<rparr>]\<rparr>)"
proof -
  let ?s = "plant0\<lparr>stabilizer := data0\<lparr>state := kOperating, torque_on := True\<rparr>,
                   enable_line := True, motor1_out := (7, 8, 9)\<rparr>"
  have h1: "state (stabilizer ?s) = kOperating" by simp
  have h2: "error (sample True 0 5)" by (simp add: sample_def)
  from operating_error_faults [OF h1 h2, of Apply0 "clock_at 6" config0] h1 h2
  show ?thesis by (simp add: plant0_def data0_def)
qed

section \<open>The watchdog outside Operating\<close>

text \<open>
  C6. Any number of watchdog polls, at any clock values, while the state is Initializing
  or Fault leave the whole plant as it was: the state, every other member of the data,
  the enable line, both motor channels and the telemetry.
\<close>

theorem watchdog_idle_noop:
  assumes "state (stabilizer s) = kInitializing \<or> state (stabilizer s) = kFault"
    and "list_all is_poll evs"
  shows "run Apply cfg evs s = Inr s"
  using assms(2)
proof (induction evs)
  case Nil
  show ?case by simp
next
  case (Cons ev evs)
  from Cons.prems obtain clock where ev: "ev = Millisecond clock"
    by (cases ev) simp_all
  from Cons.prems have "list_all is_poll evs" by simp
  with Cons.IH have "run Apply cfg evs s = Inr s" by simp
  with ev step_Millisecond_idle [OF assms(1), of Apply cfg clock] show ?case by simp
qed

theorem watchdog_idle_noop_witness:
  "(state (stabilizer plant0) = kInitializing \<or> state (stabilizer plant0) = kFault) \<and>
   list_all is_poll [Millisecond (clock_at 5), Millisecond (clock_at 4000000)] \<and>
   run Apply0 config0 [Millisecond (clock_at 5), Millisecond (clock_at 4000000)] plant0 =
     Inr plant0"
proof -
  have h1: "state (stabilizer plant0) = kInitializing \<or> state (stabilizer plant0) = kFault"
    by (simp add: plant0_def data0_def)
  have h2: "list_all is_poll [Millisecond (clock_at 5), Millisecond (clock_at 4000000)]"
    by simp
  from watchdog_idle_noop [OF h1 h2, of Apply0 config0] h1 h2 show ?thesis by simp
qed

section \<open>Error samples while Initializing\<close>

lemma step_Initializing_error:
  assumes "state (stabilizer s) = kInitializing" "error smp"
  shows "\<exists>s'. step Apply cfg (AhrsSignal clock smp) s = Inr s' \<and>
              stabilizer s' = (stabilizer s)\<lparr>start_timestamp := 0\<rparr>"
proof -
  have "HandleAhrs Apply clock cfg (stabilizer s) smp =
          Inr ((stabilizer s)\<lparr>start_timestamp := 0\<rparr>,
               [GpioSet False, DataUpdater ((stabilizer s)\<lparr>start_timestamp := 0\<rparr>)])"
    using assms by (rule HandleAhrs_Initializing_error)
  from step_AhrsSignal [OF this] show ?thesis by simp
qed

lemma run_error_signals:
  assumes "list_all error_signal evs" "state (stabilizer s) = kInitializing"
  shows "\<exists>s'. run Apply cfg evs s = Inr s' \<and>
              stabilizer s' =
                (if evs = [] then stabilizer s else (stabilizer s)\<lparr>start_timestamp := 0\<rparr>)"
  using assms
proof (induction evs arbitrary: s)
  case Nil
  show ?case by simp
next
  case (Cons ev evs)
  from Cons.prems(1) obtain clock smp where ev: "ev = AhrsSignal clock smp" "error smp"
    by (cases ev) simp_all
  from step_Initializing_error [OF Cons.prems(2) ev(2), where Apply = Apply and cfg = cfg and clock = clock]
  obtain s1 where s1: "step Apply cfg ev s = Inr s1"
    "stabilizer s1 = (stabilizer s)\<lparr>start_timestamp := 0\<rparr>"
    using ev(1) by blast
  from s1(2) Cons.prems(2) have st: "state (stabilizer s1) = kInitializing" by simp
  from Cons.prems(1) have "list_all error_signal evs" by simp
  from Cons.IH [OF this st] obtain s' where s': "run Apply cfg evs s1 = Inr s'"
    "stabilizer s' =
       (if evs = [] then stabilizer s1 else (stabilizer s1)\<lparr>start_timestamp := 0\<rparr>)"
    by blast
  from s'(2) s1(2) have "stabilizer s' = (stabilizer s)\<lparr>start_timestamp := 0\<rparr>"
    by simp
  with s1(1) s'(1) show ?case by simp
qed

text \<open>
  C5. Any non-empty sequence of samples with the error flag set, delivered while the state
  is Initializing, is handled without abort and ends with \<open>start_timestamp = 0\<close> and
  the state still Initializing (nothing else in the data changes; as the statement holds
  for every such sequence, it holds after each of its samples). A valid sample that
  follows only records the current tick as the new \<open>start_timestamp\<close>: the arming timer
  starts from scratch.
\<close>

theorem initializing_error_samples:
  assumes "state (stabilizer s) = kInitializing"
    and "list_all error_signal evs" and "evs \<noteq> []"
  shows "\<exists>s'. run Apply cfg evs s = Inr s' \<and>
              stabilizer s' = (stabilizer s)\<lparr>start_timestamp := 0\<rparr> \<and>
              start_timestamp (stabilizer s') = 0 \<and>
              state (stabilizer s') = kInitializing \<and>
              (\<forall>clock smp. \<not> error smp \<longrightarrow>
                 HandleAhrs Apply clock cfg (stabilizer s') smp =
                   Inr ((stabilizer s')\<lparr>start_timestamp := Clock.timestamp clock\<rparr>,
                        [GpioSet False,
                         DataUpdater
                           ((stabilizer s')\<lparr>start_timestamp := Clock.timestamp clock\<rparr>)]))"
proof -
  from run_error_signals [OF assms(2) assms(1), where Apply = Apply and cfg = cfg] assms(3)
  obtain s' where s': "run Apply cfg evs s = Inr s'"
    "stabilizer s' = (stabilizer s)\<lparr>start_timestamp := 0\<rparr>"
    by auto
  from s'(2) assms(1) have a: "state (stabilizer s') = kInitializing"
    and b: "start_timestamp (stabilizer s') = 0" by simp_all
  have "HandleAhrs Apply clock cfg (stabilizer s') smp =
          Inr ((stabilizer s')\<lparr>start_timestamp := Clock.timestamp clock\<rparr>,
               [GpioSet False,
                DataUpdater ((stabilizer s')\<lparr>start_timestamp := Clock.timestamp clock\<rparr>)])"
    if "\<not> error smp" for clock smp
    using a that b by (rule HandleAhrs_Initializing_start)
  with s' a b show ?thesis by blast
qed

theorem initializing_error_samples_witness:
  "state (stabilizer (plant0\<lparr>stabilizer := data0\<lparr>start_timestamp := 17\<rparr>\<rparr>)) = kInitializing \<and>
   list_all error_signal
     [AhrsSignal (clock_at 20) (sample True 0 20), AhrsSignal (clock_at 30) (sample True 0 30)] \<and>
   [AhrsSignal (clock_at 20) (sample True 0 20), AhrsSignal (clock_at 30) (sample True 0 30)] \<noteq> [] \<and>
   map_sum id stabilizer
     (run Apply0 config0
        [AhrsSignal (clock_at 20) (sample True 0 20), AhrsSignal (clock_at 30) (sample True 0 30)]
        (plant0\<lparr>stabilizer := data0\<lparr>start_timestamp := 17\<rparr>\<rparr>)) = Inr data0 \<and>
   \<not> error (sample False 45 40) \<and>
   HandleAhrs Apply0 (clock_at 40) config0 data0 (sample False 45 40) =
     Inr (data0\<lparr>start_timestamp := 40\<rparr>,
          [GpioSet False, DataUpdater (data0\<lparr>start_timestamp := 40\<rparr>)])"
proof -
  let ?s = "plant0\<lparr>stabilizer := data0\<lparr>start_timestamp := 17\<rparr>\<rparr>"
  let ?evs = "[AhrsSignal (clock_at 20) (sample True 0 20),
               AhrsSignal (clock_at 30) (sample True 0 30)]"
  have h1: "state (stabilizer ?s) = kInitializing" by (simp add: data0_def)
  have h2: "list_all error_signal ?evs" by (simp add: sample_def)
  have h3: "?evs \<noteq> []" by simp
  have h4: "\<not> error (sample False 45 40)" by (simp add: sample_def)
  from initializing_error_samples [OF h1 h2 h3, where Apply = Apply0 and cfg = config0]
  obtain s' where s': "run Apply0 config0 ?evs ?s = Inr s'"
    "stabilizer s' = (stabilizer ?s)\<lparr>start_timestamp := 0\<rparr>"
    and next_valid:
      "\<forall>clock smp. \<not> error smp \<longrightarrow>
         HandleAhrs Apply0 clock config0 (stabilizer s') smp =
           Inr ((stabilizer s')\<lparr>start_timestamp := Clock.timestamp clock\<rparr>,
                [GpioSet False,
                 DataUpdater ((stabilizer s')\<lparr>start_timestamp := Clock.timestamp clock\<rparr>)])"
    by blast
  from s'(2) have d: "stabilizer s' = data0" by (simp add: data0_def)
  from s'(1) d have a: "map_sum id stabilizer (run Apply0 config0 ?evs ?s) = Inr data0"
    by simp
  from next_valid h4 have
    "HandleAhrs Apply0 (clock_at 40) config0 (stabilizer s') (sample False 45 40) =
       Inr ((stabilizer s')\<lparr>start_timestamp := Clock.timestamp (clock_at 40)\<rparr>,
            [GpioSet False,
             DataUpdater ((stabilizer s')\<lparr>start_timestamp := Clock.timestamp (clock_at 40)\<rparr>)])"
    by blast
  with d have b: "HandleAhrs Apply0 (clock_at 40) config0 data0 (sample False 45 40) =
       Inr (data0\<lparr>start_timestamp := 40\<rparr>,
            [GpioSet False, DataUpdater (data0\<lparr>start_timestamp := 40\<rparr>)])"
    by (simp add: clock_at_def)
  from h1 h2 h3 h4 a b show ?thesis by blast
qed

section \<open>Arming\<close>











section \<open>The watchdog threshold\<close>

lemma ticks_after:
  assumes "n < 2 ^ 32"
  shows "unat ((T :: u32) + word_of_nat n - T) = n"
proof -
  have "T + word_of_nat n - T = word_of_nat n" by simp
  moreover have "unat (word_of_nat n :: u32) = n"
    using assms by (simp add: unat_of_nat)
  ultimately show ?thesis by simp
qed

lemma watchdog_margin:
  fixes W r :: real
  assumes "0 < r" and "r \<le> 2 ^ 126" and "0 < k"
    and "real k = W * r \<and> k + 1 < 2 ^ 24 \<or> \<bar>W * r - real k\<bar> \<le> 1 / 2 \<and> k + 1 < 2 ^ 23"
  shows "W < round_f32 (real (k + 1) / r)" and "round_f32 (real (k - 1) / r) \<le> W"
proof -
  define p where "p = W * r"
  have Wp: "W = p / r" using assms(1) by (simp add: p_def)
  have small: "(2::real) powi (- 126) \<le> real n / r" if "0 < n" for n :: nat
  proof -
    from that have "1 \<le> real n" by simp
    moreover have "1 / r \<ge> 1 / 2 ^ 126"
      using assms(1,2) by (intro divide_left_mono) simp_all
    ultimately have "1 / 2 ^ 126 \<le> real n / r"
      using assms(1) by (simp add: field_simps)
    moreover have "(2::real) powi (- 126) = 1 / 2 ^ 126" by (simp add: power_int_minus_divide)
    ultimately show ?thesis by simp
  qed
  have kk: "real (k + 1) = real k + 1" "real (k - 1) = real k - 1"
    using assms(3) by (simp_all add: of_nat_diff)
  have cases: "p = real k \<and> real k + 1 < 16777216 \<or>
               \<bar>p - real k\<bar> \<le> 1 / 2 \<and> real k + 1 < 8388608"
    using assms(4)
  proof
    assume h: "real k = W * r \<and> k + 1 < 2 ^ 24"
    then have "real (k + 1) < real (2 ^ 24)" by (simp only: of_nat_less_iff)
    with h show ?thesis by (simp add: p_def)
  next
    assume h: "\<bar>W * r - real k\<bar> \<le> 1 / 2 \<and> k + 1 < 2 ^ 23"
    then have "real (k + 1) < real (2 ^ 23)" by (simp only: of_nat_less_iff)
    with h show ?thesis by (simp add: p_def)
  qed
  have c1: "(1 - 1 / 2 ^ 24 :: real) = 16777215 / 16777216" by simp
  have c2: "(1 + 1 / 2 ^ 24 :: real) = 16777217 / 16777216" by simp
  have up: "p < real (k + 1) * (1 - 1 / 2 ^ 24)"
    unfolding c1 kk using cases by argo
  have dn: "real (k - 1) * (1 + 1 / 2 ^ 24) \<le> p"
    unfolding c2 kk using cases by argo
  have u: "W < real (k + 1) / r * (1 - 1 / 2 ^ 24)"
  proof -
    have "p / r < real (k + 1) * (1 - 1 / 2 ^ 24) / r"
      using up assms(1) by (rule divide_strict_right_mono)
    also have "\<dots> = real (k + 1) / r * (1 - 1 / 2 ^ 24)" by simp
    finally show ?thesis unfolding Wp .
  qed
  have s1: "(2::real) powi (- 126) \<le> real (k + 1) / r" by (rule small) simp
  from s1 u show "W < round_f32 (real (k + 1) / r)" by (rule round_f32_gt)
  show "round_f32 (real (k - 1) / r) \<le> W"
  proof (cases "k = 1")
    case True
    from True have "real k = 1" by simp
    with cases have "0 < p" by argo
    with assms(1) have "0 < W" by (simp add: Wp)
    with True show ?thesis by simp
  next
    case False
    with assms(3) have k1: "0 < k - 1" by simp
    have l: "real (k - 1) / r * (1 + 1 / 2 ^ 24) \<le> W"
    proof -
      from assms(1) have "0 \<le> r" by simp
      with dn have "real (k - 1) * (1 + 1 / 2 ^ 24) / r \<le> p / r"
        by (rule divide_right_mono)
      moreover have "real (k - 1) * (1 + 1 / 2 ^ 24) / r = real (k - 1) / r * (1 + 1 / 2 ^ 24)"
        by simp
      ultimately show ?thesis unfolding Wp by (simp only:)
    qed
    from small [OF k1] l show ?thesis by (rule round_f32_le_bound)
  qed
qed

lemma round_f32_2p24_1: "round_f32 16777217 = 16777216"
proof -
  have "round_f32 16777217 =
          of_int (round_even (16777217 / 2 powi (24 - 23))) * 2 powi (24 - 23)"
    by (rule round_f32_at) simp_all
  also have "(16777217 / 2 powi (24 - 23) :: real) = 16777217 / 2" by simp
  also have "round_even (16777217 / 2) = 8388608" by (simp add: round_even_def)
  finally show ?thesis by simp
qed

text \<open>
  C3, as claimed, fails for long periods: with \<open>W = 1024\<close> s at 16384 ticks per second,
  \<open>W * ticks_per_second\<close> is \<open>2 ^ 24\<close> ticks, and at tick \<open>T + 2 ^ 24 + 1\<close> the conversion
  of the tick difference 16777217 to \<open>float\<close> gives 16777216, the quotient is 1024, which
  does not exceed \<open>W\<close>, and the poll changes nothing.
\<close>

theorem watchdog_threshold_counterexample:
  "state (data0\<lparr>state := kOperating\<rparr>) = kOperating \<and>
   last_ahrs_update (data0\<lparr>state := kOperating\<rparr>) = 0 \<and>
   watchdog_period_s (config0\<lparr>watchdog_period_s := 1024\<rparr>) = 1024 \<and>
   real 16777216 = 1024 * rate_value (IntegralRate 16384) \<and>
   PollMillisecond
     \<lparr>Clock.timestamp = 0 + word_of_nat 16777216 + 1, ticks_per_second = IntegralRate 16384\<rparr>
     (config0\<lparr>watchdog_period_s := 1024\<rparr>) (data0\<lparr>state := kOperating\<rparr>) =
     Inr (data0\<lparr>state := kOperating\<rparr>, [])"
proof -
  have t: "unat ((0 :: u32) + word_of_nat 16777216 + 1 - 0) = 16777217" by simp
  have "PollMillisecond
     \<lparr>Clock.timestamp = 0 + word_of_nat 16777216 + 1, ticks_per_second = IntegralRate 16384\<rparr>
     (config0\<lparr>watchdog_period_s := 1024\<rparr>) (data0\<lparr>state := kOperating\<rparr>) =
     Inr (data0\<lparr>state := kOperating\<rparr>, [])"
    by (simp add: PollMillisecond_Operating data0_def round_f32_2p24_1)
  then show ?thesis by (simp add: data0_def)
qed

text \<open>
  C3, amended. Let the state be Operating, \<open>last_ahrs_update = T\<close> and
  \<open>watchdog_period_s = W\<close>, with a positive tick rate that is exact as a \<open>float\<close> and at
  most \<open>2 ^ 126\<close>, and let \<open>k\<close>, at least 1, be the period in ticks: either
  \<open>W * ticks_per_second\<close> is the whole number \<open>k\<close> and \<open>k + 1 < 2 ^ 24\<close>, or \<open>k\<close> is within half
  a tick of \<open>W * ticks_per_second\<close> and \<open>k + 1 < 2 ^ 23\<close>. A poll at tick \<open>T + k + 1\<close> moves
  the state to Fault, clears \<open>torque_on\<close>, sets the enable line false and both motors to
  zero; a poll at tick \<open>T + k - 1\<close> changes nothing and makes no call.
\<close>

theorem watchdog_threshold:
  assumes "state d = kOperating" and "last_ahrs_update d = T"
    and "watchdog_period_s cfg = W"
    and "rate_value rate = r" and "rate_f32 rate = r" and "0 < r" and "r \<le> 2 ^ 126"
    and "0 < k"
    and "real k = W * r \<and> k + 1 < 2 ^ 24 \<or> \<bar>W * r - real k\<bar> \<le> 1 / 2 \<and> k + 1 < 2 ^ 23"
  shows "PollMillisecond \<lparr>Clock.timestamp = T + word_of_nat k + 1, ticks_per_second = rate\<rparr>
           cfg d =
           Inr (d\<lparr>state := kFault, torque_on := False\<rparr>,
                [GpioSet False, PwmSet Motor1 0 0 0, PwmSet Motor2 0 0 0]) \<and>
         PollMillisecond \<lparr>Clock.timestamp = T + word_of_nat k - 1, ticks_per_second = rate\<rparr>
           cfg d = Inr (d, [])"
proof -
  have nz: "\<not> zero_rate rate" using assms(4,6) by (cases rate) auto
  have k24: "k + 1 < 2 ^ 24" using assms(9) by auto
  then have k32: "k + 1 < 2 ^ 32" by simp
  have late: "unat (T + word_of_nat k + 1 - T) = k + 1"
  proof -
    have "T + word_of_nat k + 1 = T + word_of_nat (k + 1)" by simp
    then have "unat (T + word_of_nat k + 1 - T) = unat (T + word_of_nat (k + 1) - T)"
      by (simp only:)
    also have "\<dots> = k + 1" using k32 by (rule ticks_after)
    finally show ?thesis .
  qed
  have early: "unat (T + word_of_nat k - 1 - T) = k - 1"
  proof -
    from assms(8) obtain j where j: "k = Suc j" by (cases k) simp_all
    then have "T + word_of_nat k - 1 = T + word_of_nat (k - 1)" by simp
    then have "unat (T + word_of_nat k - 1 - T) = unat (T + word_of_nat (k - 1) - T)"
      by (simp only:)
    also have "\<dots> = k - 1"
    proof (rule ticks_after)
      from k32 show "k - 1 < 2 ^ 32" by simp
    qed
    finally show ?thesis .
  qed
  have x1: "round_f32 (real (k + 1)) = real (k + 1)"
    using k24 by (intro round_f32_of_nat) simp
  have x2: "round_f32 (real (k - 1)) = real (k - 1)"
    using k24 by (intro round_f32_of_nat) simp
  note m = watchdog_margin [OF assms(6) assms(7) assms(8) assms(9)]
  have a: "PollMillisecond \<lparr>Clock.timestamp = T + word_of_nat k + 1, ticks_per_second = rate\<rparr>
             cfg d =
           Inr (d\<lparr>state := kFault, torque_on := False\<rparr>,
                [GpioSet False, PwmSet Motor1 0 0 0, PwmSet Motor2 0 0 0])"
    using assms(1-3) assms(5) nz late x1 m(1) by (simp add: PollMillisecond_Operating)
  have "\<not> W < round_f32 (real (k - 1) / r)" using m(2) by simp
  then have b: "PollMillisecond
                  \<lparr>Clock.timestamp = T + word_of_nat k - 1, ticks_per_second = rate\<rparr>
                  cfg d = Inr (d, [])"
    using assms(1-3) assms(5) nz early x2 by (simp add: PollMillisecond_Operating)
  from a b show ?thesis by simp
qed

theorem watchdog_threshold_witness:
  "state (armed\<lparr>last_ahrs_update := 20100\<rparr>) = kOperating \<and>
   last_ahrs_update (armed\<lparr>last_ahrs_update := 20100\<rparr>) = 20100 \<and>
   watchdog_period_s config0 = 13421773 / 134217728 \<and>
   rate_value (IntegralRate 10000) = 10000 \<and> rate_f32 (IntegralRate 10000) = 10000 \<and>
   (0 :: real) < 10000 \<and> (10000 :: real) \<le> 2 ^ 126 \<and> (0 :: nat) < 1000 \<and>
   \<bar>13421773 / 134217728 * 10000 - real 1000\<bar> \<le> 1 / 2 \<and> (1000 :: nat) + 1 < 2 ^ 23 \<and>
   PollMillisecond (clock_at 21101) config0 (armed\<lparr>last_ahrs_update := 20100\<rparr>) =
     Inr (armed\<lparr>last_ahrs_update := 20100, state := kFault, torque_on := False\<rparr>,
          [GpioSet False, PwmSet Motor1 0 0 0, PwmSet Motor2 0 0 0]) \<and>
   PollMillisecond (clock_at 21099) config0 (armed\<lparr>last_ahrs_update := 20100\<rparr>) =
     Inr (armed\<lparr>last_ahrs_update := 20100\<rparr>, []) \<and>
   watchdog_period_s (config0\<lparr>watchdog_period_s := 1 / 8\<rparr>) = 1 / 8 \<and>
   real 1250 = 1 / 8 * 10000 \<and> (1250 :: nat) + 1 < 2 ^ 24 \<and>
   PollMillisecond (clock_at 21351) (config0\<lparr>watchdog_period_s := 1 / 8\<rparr>)
     (armed\<lparr>last_ahrs_update := 20100\<rparr>) =
     Inr (armed\<lparr>last_ahrs_update := 20100, state := kFault, torque_on := False\<rparr>,
          [GpioSet False, PwmSet Motor1 0 0 0, PwmSet Motor2 0 0 0]) \<and>
   PollMillisecond (clock_at 21349) (config0\<lparr>watchdog_period_s := 1 / 8\<rparr>)
     (armed\<lparr>last_ahrs_update := 20100\<rparr>) =
     Inr (armed\<lparr>last_ahrs_update := 20100\<rparr>, [])"
proof -
  let ?d = "armed\<lparr>last_ahrs_update := 20100\<rparr>"
  let ?cfg = "config0\<lparr>watchdog_period_s := 1 / 8\<rparr>"
  have h1: "state ?d = kOperating" by (simp add: armed_def)
  have h2: "last_ahrs_update ?d = 20100" by simp
  have h3: "watchdog_period_s config0 = 13421773 / 134217728" by (simp add: config0_def)
  have h3': "watchdog_period_s ?cfg = 1 / 8" by simp
  have h4: "rate_value (IntegralRate 10000) = 10000" by simp
  have h5: "rate_f32 (IntegralRate 10000) = 10000" by simp
  have h6: "(0 :: real) < 10000" by simp
  have h7: "(10000 :: real) \<le> 2 ^ 126" by simp
  have h8: "(0 :: nat) < 1000" "(0 :: nat) < 1250" by simp_all
  have n: "\<bar>13421773 / 134217728 * 10000 - real 1000\<bar> \<le> 1 / 2 \<and> (1000 :: nat) + 1 < 2 ^ 23"
    by simp
  have w: "real 1250 = 1 / 8 * 10000 \<and> (1250 :: nat) + 1 < 2 ^ 24" by simp
  have c1: "\<lparr>Clock.timestamp = 20100 + word_of_nat 1000 + 1,
             ticks_per_second = IntegralRate 10000\<rparr> = clock_at 21101"
    by (simp add: clock_at_def)
  have c2: "\<lparr>Clock.timestamp = 20100 + word_of_nat 1000 - 1,
             ticks_per_second = IntegralRate 10000\<rparr> = clock_at 21099"
    by (simp add: clock_at_def)
  have c3: "\<lparr>Clock.timestamp = 20100 + word_of_nat 1250 + 1,
             ticks_per_second = IntegralRate 10000\<rparr> = clock_at 21351"
    by (simp add: clock_at_def)
  have c4: "\<lparr>Clock.timestamp = 20100 + word_of_nat 1250 - 1,
             ticks_per_second = IntegralRate 10000\<rparr> = clock_at 21349"
    by (simp add: clock_at_def)
  have a: "PollMillisecond (clock_at 21101) config0 ?d =
             Inr (?d\<lparr>state := kFault, torque_on := False\<rparr>,
                  [GpioSet False, PwmSet Motor1 0 0 0, PwmSet Motor2 0 0 0]) \<and>
           PollMillisecond (clock_at 21099) config0 ?d = Inr (?d, [])"
    using watchdog_threshold [OF h1 h2 h3 h4 h5 h6 h7 h8(1) disjI2 [OF n]]
    by (simp only: c1 c2)
  have b: "PollMillisecond (clock_at 21351) ?cfg ?d =
             Inr (?d\<lparr>state := kFault, torque_on := False\<rparr>,
                  [GpioSet False, PwmSet Motor1 0 0 0, PwmSet Motor2 0 0 0]) \<and>
           PollMillisecond (clock_at 21349) ?cfg ?d = Inr (?d, [])"
    using watchdog_threshold [OF h1 h2 h3' h4 h5 h6 h7 h8(2) disjI1 [OF w]]
    by (simp only: c3 c4)
  from h1 h2 h3 h3' h4 h5 h6 h7 h8(1) n w a b show ?thesis by blast
qed

section \<open>Who writes last_ahrs_update\<close>

text \<open>
  C8, as claimed, fails: the arming step of \<open>DoInitializing\<close> writes
  \<open>last_ahrs_update\<close> while the state is still Initializing. Here the stabilizer,
  Initializing with its timer started at tick 1, takes a valid sample at tick 20001 and
  \<open>last_ahrs_update\<close> goes from 0 to 20001.
\<close>

theorem last_ahrs_update_only_operating_counterexample:
  "state (data0\<lparr>start_timestamp := 1\<rparr>) = kInitializing \<and>
   last_ahrs_update (data0\<lparr>start_timestamp := 1\<rparr>) = 0 \<and>
   map_sum id (last_ahrs_update \<circ> fst)
     (entry Apply0 config0 (AhrsSignal (clock_at 20001) (sample False 45 20001))
        (data0\<lparr>start_timestamp := 1\<rparr>)) = Inr 20001"
  by (simp add: HandleAhrs_def DoInitializing_def data0_def
        sample_def clock_at_def config0_def Let_def)

text \<open>
  C8, amended. An invocation that changes \<open>last_ahrs_update\<close> handles an accepted
  (error-free) sample, and either the state is Operating and the new value is the
  sample's timestamp, or the state is Initializing, the invocation arms the stabilizer
  (the state becomes Operating) and the new value is the current clock tick. Error
  samples, the Fault handler and the watchdog poll never change it.
\<close>

theorem last_ahrs_update_writers:
  assumes "entry Apply cfg ev d = Inr (d', calls)"
    and "last_ahrs_update d' \<noteq> last_ahrs_update d"
  shows "\<exists>clock smp. ev = AhrsSignal clock smp \<and> \<not> error smp \<and>
           (state d = kOperating \<and> state d' = kOperating \<and>
              last_ahrs_update d' = AhrsData.timestamp smp \<or>
            state d = kInitializing \<and> state d' = kOperating \<and>
              last_ahrs_update d' = Clock.timestamp clock)"
proof (cases ev)
  case (AhrsSignal clock smp)
  with assms(1) have "HandleAhrs Apply clock cfg d smp = Inr (d', calls)" by simp
  from HandleAhrs_cases [OF this] assms(2) AhrsSignal show ?thesis by auto
next
  case (Millisecond clock)
  with assms(1) have "PollMillisecond clock cfg d = Inr (d', calls)" by simp
  from PollMillisecond_cases [OF this] assms(2) show ?thesis by auto
qed

theorem last_ahrs_update_writers_witness:
  "entry Apply0 config0 (AhrsSignal (clock_at 20001) (sample False 45 20001))
     (data0\<lparr>start_timestamp := 1\<rparr>) =
     Inr (data0\<lparr>state := kOperating, start_timestamp := 1,
                desired_deg := \<lparr>roll = 0, Euler.pitch = 0, Euler.yaw = 45\<rparr>,
                last_ahrs_update := 20001\<rparr>,
          [GpioSet False,
           DataUpdater
             (data0\<lparr>state := kOperating, start_timestamp := 1,
                    desired_deg := \<lparr>roll = 0, Euler.pitch = 0, Euler.yaw = 45\<rparr>,
                    last_ahrs_update := 20001\<rparr>)]) \<and>
   last_ahrs_update
     (data0\<lparr>state := kOperating, start_timestamp := 1,
            desired_deg := \<lparr>roll = 0, Euler.pitch = 0, Euler.yaw = 45\<rparr>,
            last_ahrs_update := 20001\<rparr>) \<noteq> last_ahrs_update (data0\<lparr>start_timestamp := 1\<rparr>) \<and>
   \<not> error (sample False 45 20001) \<and> state (data0\<lparr>start_timestamp := 1\<rparr>) = kInitializing \<and>
   Clock.timestamp (clock_at 20001) = 20001"
proof -
  let ?d' = "data0\<lparr>state := kOperating, start_timestamp := 1,
                   desired_deg := \<lparr>roll = 0, Euler.pitch = 0, Euler.yaw = 45\<rparr>,
                   last_ahrs_update := 20001\<rparr>"
  have h1: "entry Apply0 config0 (AhrsSignal (clock_at 20001) (sample False 45 20001))
              (data0\<lparr>start_timestamp := 1\<rparr>) =
            Inr (?d', [GpioSet False, DataUpdater ?d'])"
    by (simp add: HandleAhrs_def DoInitializing_def data0_def
          sample_def clock_at_def config0_def Let_def)
  have h2: "last_ahrs_update ?d' \<noteq> last_ahrs_update (data0\<lparr>start_timestamp := 1\<rparr>)"
    by (simp add: data0_def)
  from last_ahrs_update_writers [OF h1 h2] h1 h2 show ?thesis
    by (auto simp: data0_def clock_at_def)
qed

section \<open>Telemetry\<close>

lemma HandleAhrs_publishes_last:
  assumes "HandleAhrs Apply clock cfg d smp = Inr (d', calls)"
  shows "\<exists>handler_calls. calls = handler_calls @ [DataUpdater d'] \<and>
           list_all (\<lambda>c. \<not> is_update c) handler_calls"
  using HandleAhrs_cases [OF assms] by auto

text \<open>
  C9. In each of the states Initializing, Operating and Fault, and for every sample,
  \<open>HandleAhrs\<close> completes (the tick rate not being zero) with a list of calls that ends
  in one telemetry update carrying the data as the state handler left them, and the calls
  before it contain no telemetry update: the plant's telemetry grows by exactly that
  one snapshot.
\<close>

theorem telemetry_exactly_once:
  assumes "state (stabilizer s) = kInitializing \<or> state (stabilizer s) = kOperating \<or>
           state (stabilizer s) = kFault"
    and "\<not> zero_rate (ticks_per_second clock)"
  shows "\<exists>d' handler_calls s'.
           HandleAhrs Apply clock cfg (stabilizer s) smp =
             Inr (d', handler_calls @ [DataUpdater d']) \<and>
           list_all (\<lambda>c. \<not> is_update c) handler_calls \<and>
           step Apply cfg (AhrsSignal clock smp) s = Inr s' \<and>
           stabilizer s' = d' \<and> published s' = published s @ [d']"
proof -
  from HandleAhrs_total [OF assms, where Apply = Apply and cfg = cfg and smp = smp]
  obtain d' calls where h: "HandleAhrs Apply clock cfg (stabilizer s) smp = Inr (d', calls)"
    by blast
  from HandleAhrs_publishes_last [OF h] obtain hc where
    hc: "calls = hc @ [DataUpdater d']" "list_all (\<lambda>c. \<not> is_update c) hc"
    by blast
  let ?s' = "fold perform calls (s\<lparr>stabilizer := d'\<rparr>)"
  have st: "step Apply cfg (AhrsSignal clock smp) s = Inr ?s'"
    using h by (rule step_AhrsSignal)
  have "published ?s' = published s @ [d']"
    using hc by (simp add: published_fold_perform)
  with h hc st show ?thesis by auto
qed

theorem telemetry_exactly_once_witness:
  "(state (stabilizer plant0) = kInitializing \<or> state (stabilizer plant0) = kOperating \<or>
    state (stabilizer plant0) = kFault) \<and>
   \<not> zero_rate (ticks_per_second (clock_at 3)) \<and>
   HandleAhrs Apply0 (clock_at 3) config0 (stabilizer plant0) (sample False 45 3) =
     Inr (data0\<lparr>start_timestamp := 3\<rparr>,
          [GpioSet False] @ [DataUpdater (data0\<lparr>start_timestamp := 3\<rparr>)]) \<and>
   map_sum id published (step Apply0 config0 (AhrsSignal (clock_at 3) (sample False 45 3)) plant0) =
     Inr [data0\<lparr>start_timestamp := 3\<rparr>]"
proof -
  have h1: "state (stabilizer plant0) = kInitializing \<or> state (stabilizer plant0) = kOperating \<or>
            state (stabilizer plant0) = kFault"
    by (simp add: plant0_def data0_def)
  have h2: "\<not> zero_rate (ticks_per_second (clock_at 3))" by (simp add: clock_at_def)
  have e: "HandleAhrs Apply0 (clock_at 3) config0 (stabilizer plant0) (sample False 45 3) =
             Inr (data0\<lparr>start_timestamp := 3\<rparr>,
                  [GpioSet False] @ [DataUpdater (data0\<lparr>start_timestamp := 3\<rparr>)])"
    by (simp add: HandleAhrs_def DoInitializing_def plant0_def data0_def sample_def clock_at_def)
  from telemetry_exactly_once [OF h1 h2, where Apply = Apply0 and cfg = config0
                                 and smp = "sample False 45 3"]
  obtain d' hc s' where
    "HandleAhrs Apply0 (clock_at 3) config0 (stabilizer plant0) (sample False 45 3) =
       Inr (d', hc @ [DataUpdater d'])"
    "step Apply0 config0 (AhrsSignal (clock_at 3) (sample False 45 3)) plant0 = Inr s'"
    "stabilizer s' = d'" "published s' = published plant0 @ [d']"
    by blast
  with e have "map_sum id published
                 (step Apply0 config0 (AhrsSignal (clock_at 3) (sample False 45 3)) plant0) =
               Inr [data0\<lparr>start_timestamp := 3\<rparr>]"
    by (simp add: plant0_def)
  with h1 h2 e show ?thesis by blast
qed

section \<open>The torque flag\<close>

lemma entry_torque_on:
  assumes "entry Apply cfg ev d = Inr (d', calls)" "torque_on d = False"
  shows "torque_on d' = False \<and> GpioSet True \<notin> set calls"
proof (cases ev)
  case (AhrsSignal clock smp)
  with assms(1) have "HandleAhrs Apply clock cfg d smp = Inr (d', calls)" by simp
  from HandleAhrs_cases [OF this] assms(2) show ?thesis by auto
next
  case (Millisecond clock)
  with assms(1) have "PollMillisecond clock cfg d = Inr (d', calls)" by simp
  from PollMillisecond_cases [OF this] assms(2) show ?thesis by auto
qed

lemma run_torque_on:
  assumes "run Apply cfg evs s0 = Inr s" "torque_on (stabilizer s0) = False"
  shows "torque_on (stabilizer s) = False"
  using assms
proof (induction evs arbitrary: s0)
  case Nil
  then show ?case by simp
next
  case (Cons ev evs)
  from Cons.prems(1) obtain s1 where s1: "step Apply cfg ev s0 = Inr s1"
    "run Apply cfg evs s1 = Inr s"
    by (auto split: sum.splits)
  from step_stabilizer [OF s1(1)] obtain calls where
    "entry Apply cfg ev (stabilizer s0) = Inr (stabilizer s1, calls)" by blast
  from entry_torque_on [OF this Cons.prems(2)] have "torque_on (stabilizer s1) = False"
    by simp
  from Cons.IH [OF s1(2) this] show ?case .
qed

text \<open>
  C10. Started with \<open>torque_on\<close> false, as \<open>Data\<close> initialises it, the stabilizer keeps
  \<open>torque_on\<close> false through every sequence of invocations of its two entry points, and
  no invocation ever sets the enable line true; in particular the enable write of
  \<open>DoOperating\<close>, which passes \<open>torque_on\<close>, passes false.
\<close>

theorem torque_on_never_set:
  assumes "torque_on (stabilizer s0) = False"
    and "run Apply cfg evs s0 = Inr s"
    and "entry Apply cfg ev (stabilizer s) = Inr (d', calls)"
  shows "torque_on (stabilizer s) = False \<and> torque_on d' = False \<and>
         GpioSet True \<notin> set calls"
proof -
  have a: "torque_on (stabilizer s) = False"
    using assms(2) assms(1) by (rule run_torque_on)
  from entry_torque_on [OF assms(3) a] a show ?thesis by simp
qed

theorem torque_on_never_set_witness:
  "torque_on (stabilizer plant0) = False \<and>
   run Apply0 config0 arming_trace plant0 =
     Inr (plant0\<lparr>stabilizer := armed,
                published := [data0\<lparr>start_timestamp := 1\<rparr>, armed]\<rparr>) \<and>
   entry Apply0 config0 (AhrsSignal (clock_at 20101) (sample False 45 20100))
     (stabilizer (plant0\<lparr>stabilizer := armed,
                          published := [data0\<lparr>start_timestamp := 1\<rparr>, armed]\<rparr>)) =
     Inr (armed\<lparr>last_ahrs_update := 20100\<rparr>,
          [GpioSet False, PwmSet Motor1 32767 61144 4389, PwmSet Motor2 32767 61144 4389,
           DataUpdater (armed\<lparr>last_ahrs_update := 20100\<rparr>)]) \<and>
   torque_on (armed\<lparr>last_ahrs_update := 20100\<rparr>) = False \<and>
   GpioSet True \<notin> set [GpioSet False, PwmSet Motor1 32767 61144 4389,
                       PwmSet Motor2 32767 61144 4389,
                       DataUpdater (armed\<lparr>last_ahrs_update := 20100\<rparr>)]"
proof -
  let ?s = "plant0\<lparr>stabilizer := armed, published := [data0\<lparr>start_timestamp := 1\<rparr>, armed]\<rparr>"
  have h1: "torque_on (stabilizer plant0) = False" by (simp add: plant0_def data0_def)
  have h2: "run Apply0 config0 arming_trace plant0 = Inr ?s" by (rule run_arming_trace)
  have h3: "entry Apply0 config0 (AhrsSignal (clock_at 20101) (sample False 45 20100))
              (stabilizer ?s) =
            Inr (armed\<lparr>last_ahrs_update := 20100\<rparr>,
                 [GpioSet False, PwmSet Motor1 32767 61144 4389, PwmSet Motor2 32767 61144 4389,
                  DataUpdater (armed\<lparr>last_ahrs_update := 20100\<rparr>)])"
    by (simp add: HandleAhrs_armed)
  from torque_on_never_set [OF h1 h2 h3] h1 h2 h3 show ?thesis by simp
qed

section \<open>Outputs outside Operating\<close>

lemma entry_quiet:
  assumes "entry Apply cfg ev d = Inr (d', calls)" "state d \<noteq> kOperating"
  shows "list_all quiet calls"
proof (cases ev)
  case (AhrsSignal clock smp)
  with assms(1) have "HandleAhrs Apply clock cfg d smp = Inr (d', calls)" by simp
  from HandleAhrs_cases [OF this] assms(2) show ?thesis by auto
next
  case (Millisecond clock)
  with assms(1) have "PollMillisecond clock cfg d = Inr (d', calls)" by simp
  from PollMillisecond_cases [OF this] assms(2) show ?thesis by auto
qed

lemma entry_leaves_Operating:
  assumes "entry Apply cfg ev d = Inr (d', calls)"
    and "state d = kOperating" and "state d' \<noteq> kOperating"
  shows "actuators_off (fold perform calls s)"
proof (cases ev)
  case (AhrsSignal clock smp)
  with assms(1) have "HandleAhrs Apply clock cfg d smp = Inr (d', calls)" by simp
  from HandleAhrs_cases [OF this] assms(2,3) show ?thesis
    by (auto simp: actuators_off_def)
next
  case (Millisecond clock)
  with assms(1) have "PollMillisecond clock cfg d = Inr (d', calls)" by simp
  from PollMillisecond_cases [OF this] assms(2,3) show ?thesis
    by (auto simp: actuators_off_def)
qed

lemma step_safe:
  assumes "step Apply cfg ev s = Inr s'"
    and "state (stabilizer s) = kOperating \<or> actuators_off s"
  shows "state (stabilizer s') \<noteq> kNumStates \<and>
         (state (stabilizer s') = kOperating \<or> actuators_off s')"
proof -
  from step_stabilizer [OF assms(1)] obtain calls where
    e: "entry Apply cfg ev (stabilizer s) = Inr (stabilizer s', calls)"
    and s': "s' = fold perform calls (s\<lparr>stabilizer := stabilizer s'\<rparr>)"
    by blast
  have n: "state (stabilizer s') \<noteq> kNumStates"
  proof (cases ev)
    case (AhrsSignal clock smp)
    with e have "HandleAhrs Apply clock cfg (stabilizer s) smp = Inr (stabilizer s', calls)"
      by simp
    from HandleAhrs_cases [OF this] show ?thesis by auto
  next
    case (Millisecond clock)
    with e have "PollMillisecond clock cfg (stabilizer s) = Inr (stabilizer s', calls)"
      by simp
    from PollMillisecond_cases [OF this] show ?thesis by auto
  qed
  have "state (stabilizer s') = kOperating \<or> actuators_off s'"
  proof (cases "state (stabilizer s') = kOperating")
    case True
    then show ?thesis by simp
  next
    case post: False
    show ?thesis
    proof (cases "state (stabilizer s) = kOperating")
      case True
      from entry_leaves_Operating [OF e True post, of "s\<lparr>stabilizer := stabilizer s'\<rparr>"] s'
      show ?thesis by simp
    next
      case False
      with assms(2) have off: "actuators_off (s\<lparr>stabilizer := stabilizer s'\<rparr>)" by simp
      from entry_quiet [OF e False] have "list_all quiet calls" .
      from quiet_fold_perform [OF this off] s' show ?thesis by simp
    qed
  qed
  with n show ?thesis by simp
qed

lemma run_safe:
  assumes "run Apply cfg evs s0 = Inr s"
    and "state (stabilizer s0) \<noteq> kNumStates"
    and "state (stabilizer s0) = kOperating \<or> actuators_off s0"
  shows "state (stabilizer s) \<noteq> kNumStates \<and>
         (state (stabilizer s) = kOperating \<or> actuators_off s)"
  using assms
proof (induction evs arbitrary: s0)
  case Nil
  then show ?case by simp
next
  case (Cons ev evs)
  from Cons.prems(1) obtain s1 where s1: "step Apply cfg ev s0 = Inr s1"
    "run Apply cfg evs s1 = Inr s"
    by (auto split: sum.splits)
  from step_safe [OF s1(1) Cons.prems(3)]
  have "state (stabilizer s1) \<noteq> kNumStates"
    and "state (stabilizer s1) = kOperating \<or> actuators_off s1" by simp_all
  with Cons.IH [OF s1(2)] show ?case by blast
qed

lemma entry_total:
  assumes "state d \<noteq> kNumStates" "\<not> zero_rate (event_rate ev)"
  shows "\<exists>d' calls. entry Apply cfg ev d = Inr (d', calls)"
proof (cases ev)
  case (AhrsSignal clock smp)
  from assms(1) have "state d = kInitializing \<or> state d = kOperating \<or> state d = kFault"
    by (cases "state d") simp_all
  moreover from assms(2) AhrsSignal have "\<not> zero_rate (ticks_per_second clock)" by simp
  ultimately show ?thesis using AhrsSignal by (simp add: HandleAhrs_total)
next
  case (Millisecond clock)
  with assms(2) have r: "\<not> zero_rate (ticks_per_second clock)" by simp
  show ?thesis
  proof (cases "state d")
    case kOperating
    with r Millisecond show ?thesis by (simp add: PollMillisecond_Operating)
  qed (use assms(1) Millisecond in \<open>simp_all add: PollMillisecond_idle\<close>)
qed

lemma entry_not_NumStates:
  assumes "entry Apply cfg ev d = Inr (d', calls)"
  shows "state d' \<noteq> kNumStates"
proof (cases ev)
  case (AhrsSignal clock smp)
  with assms have "HandleAhrs Apply clock cfg d smp = Inr (d', calls)" by simp
  from HandleAhrs_cases [OF this] show ?thesis by auto
next
  case (Millisecond clock)
  with assms have "PollMillisecond clock cfg d = Inr (d', calls)" by simp
  from PollMillisecond_cases [OF this] show ?thesis by auto
qed

text \<open>
  No trace aborts: from a state other than the sentinel \<open>kNumStates\<close>, every sequence of
  invocations whose clocks have a tick rate other than zero runs to its end.
\<close>

lemma run_total:
  assumes "state (stabilizer s0) \<noteq> kNumStates"
    and "list_all (\<lambda>ev. \<not> zero_rate (event_rate ev)) evs"
  shows "\<exists>s. run Apply cfg evs s0 = Inr s"
  using assms
proof (induction evs arbitrary: s0)
  case Nil
  show ?case by simp
next
  case (Cons ev evs)
  from Cons.prems(2) have r: "\<not> zero_rate (event_rate ev)"
    and rs: "list_all (\<lambda>ev. \<not> zero_rate (event_rate ev)) evs" by simp_all
  from entry_total [OF Cons.prems(1) r, of Apply cfg] obtain d' calls where
    e: "entry Apply cfg ev (stabilizer s0) = Inr (d', calls)" by blast
  let ?s1 = "fold perform calls (s0\<lparr>stabilizer := d'\<rparr>)"
  have st: "step Apply cfg ev s0 = Inr ?s1" using e by (simp add: step_def)
  from entry_not_NumStates [OF e] have "state (stabilizer ?s1) \<noteq> kNumStates" by simp
  from Cons.IH [OF this rs] obtain s where "run Apply cfg evs ?s1 = Inr s" by blast
  with st show ?case by simp
qed

text \<open>
  C1. In every state that the stabilizer reaches from its state after construction and
  in which the state is not Operating, both motor channels are at zero and the enable
  line is false; an invocation of either entry point in such a state (the tick rate not
  being zero) completes, makes no call that energises a motor phase or raises the enable
  line, and leaves both channels at zero and the enable line false.
\<close>

theorem outputs_off_outside_Operating:
  assumes "initial s0" and "run Apply cfg evs s0 = Inr s"
    and "state (stabilizer s) \<noteq> kOperating" and "\<not> zero_rate (event_rate ev)"
  shows "actuators_off s \<and>
         (\<exists>d' calls s'.
            entry Apply cfg ev (stabilizer s) = Inr (d', calls) \<and> list_all quiet calls \<and>
            step Apply cfg ev s = Inr s' \<and> actuators_off s')"
proof -
  from assms(1) have i: "state (stabilizer s0) \<noteq> kNumStates" "actuators_off s0"
    by (simp_all add: initial_def)
  from run_safe [OF assms(2) i(1)] i(2) assms(3)
  have n: "state (stabilizer s) \<noteq> kNumStates" and off: "actuators_off s" by simp_all
  from entry_total [OF n assms(4), of Apply cfg] obtain d' calls where
    e: "entry Apply cfg ev (stabilizer s) = Inr (d', calls)" by blast
  from entry_quiet [OF e assms(3)] have q: "list_all quiet calls" .
  let ?s' = "fold perform calls (s\<lparr>stabilizer := d'\<rparr>)"
  have st: "step Apply cfg ev s = Inr ?s'" using e by (simp add: step_def)
  from off have "actuators_off (s\<lparr>stabilizer := d'\<rparr>)" by simp
  from quiet_fold_perform [OF q this] have "actuators_off ?s'" .
  with off e q st show ?thesis by blast
qed

theorem outputs_off_outside_Operating_witness:
  "initial plant0 \<and> run Apply0 config0 (arming_trace @ stale_trace) plant0 = Inr faulted \<and>
   state (stabilizer faulted) \<noteq> kOperating \<and>
   \<not> zero_rate (event_rate (AhrsSignal (clock_at 30000) (sample False 0 30000))) \<and>
   actuators_off faulted \<and>
   (\<exists>d' calls s'.
      entry Apply0 config0 (AhrsSignal (clock_at 30000) (sample False 0 30000))
        (stabilizer faulted) = Inr (d', calls) \<and>
      list_all quiet calls \<and>
      step Apply0 config0 (AhrsSignal (clock_at 30000) (sample False 0 30000)) faulted = Inr s' \<and>
      actuators_off s')"
proof -
  have h1: "initial plant0"
    by (simp add: initial_def actuators_off_def plant0_def data0_def)
  have h2: "run Apply0 config0 (arming_trace @ stale_trace) plant0 = Inr faulted"
    by (rule run_to_faulted)
  have h3: "state (stabilizer faulted) \<noteq> kOperating" by (simp add: faulted_def)
  have h4: "\<not> zero_rate (event_rate (AhrsSignal (clock_at 30000) (sample False 0 30000)))"
    by (simp add: clock_at_def)
  from outputs_off_outside_Operating [OF h1 h2 h3 h4] h1 h2 h3 h4 show ?thesis by simp
qed

end
